theory Spec2Isabelle
  imports Complex_Main "HOL-Library.Char_ord" "HOL-Library.List_Lexorder" "HOL-Library.Sublist"
begin

section \<open>Types (types.ts)\<close>

text \<open>
  \<^verbatim>\<open>CurrencyCode\<close> is the union of the nine literal codes of \<^verbatim>\<open>CURRENCIES\<close>;
  \<^verbatim>\<open>code\<close> gives the string a value of the type stands for.
\<close>

datatype CurrencyCode = USD | EUR | GBP | JPY | CNY | CHF | AUD | CAD | NZD

fun code :: "CurrencyCode \<Rightarrow> string" where
  "code USD = ''USD''"
| "code EUR = ''EUR''"
| "code GBP = ''GBP''"
| "code JPY = ''JPY''"
| "code CNY = ''CNY''"
| "code CHF = ''CHF''"
| "code AUD = ''AUD''"
| "code CAD = ''CAD''"
| "code NZD = ''NZD''"

definition BASE_CURRENCY :: CurrencyCode where
  "BASE_CURRENCY = USD"

definition FETCH_CURRENCIES :: "CurrencyCode list" where
  "FETCH_CURRENCIES = [EUR, GBP, JPY, CNY, CHF, AUD, CAD, NZD]"

text \<open>
  The numbers of a rate are JavaScript numbers. The model leaves their type \<open>'n\<close> open:
  the code only divides them, so every theorem below holds for any type with a \<open>1\<close>
  and a division, whatever the division does at zero or with rounding.
\<close>

record 'n DailyRate =
  date :: string
  "open" :: 'n
  high :: 'n
  low :: 'n
  close :: 'n

record CurrencyPair =
  pair_from :: CurrencyCode
  pair_to :: CurrencyCode

text \<open>
  \<^verbatim>\<open>CurrencyData\<close>: the object store holds it with \<^verbatim>\<open>pair\<close> overwritten by the key
  string (\<^verbatim>\<open>{ ...data, pair: getPairKey(from, to) } as any\<close>), a reader gets it back
  with \<^verbatim>\<open>pair: { from, to }\<close>; hence the type of \<open>pair\<close> is a parameter.
\<close>

record ('p, 'n) CurrencyData =
  pair :: 'p
  rates :: "'n DailyRate list"
  lastUpdated :: int

section \<open>The outside world\<close>

text \<open>
  What \<^verbatim>\<open>fetch\<close> gives: the promise rejects, or there is a response with its
  \<^verbatim>\<open>ok\<close> flag, its status and the value of \<^verbatim>\<open>response.json()\<close> (\<open>None\<close> when that
  promise rejects).
\<close>

datatype 'a http = Rejected | Response bool nat "'a option"

text \<open>
  The provider's payload. The four strings of a day are taken as already read by
  \<^verbatim>\<open>parseFloat\<close>; \<^verbatim>\<open>Meta Data\<close> is never read.
\<close>

record 'n AlphaVantageResponse =
  TimeSeries :: "(string \<times> 'n \<times> 'n \<times> 'n \<times> 'n) list option"
  Note :: "string option"
  ErrorMessage :: "string option"

text \<open>backendApi.ts: a row of the shared store, the body of a GET, a row of a POST.\<close>

record 'n ExchangeRateRecord = "'n DailyRate" +
  from_currency :: string
  to_currency :: string

record 'n RatesResponse =
  success :: bool
  data :: "'n ExchangeRateRecord list"
  count :: int

record 'n BackendRate = "'n DailyRate" +
  rate_from :: CurrencyCode
  rate_to :: CurrencyCode

text \<open>rateLimiter.ts: the value kept in localStorage under \<^verbatim>\<open>fx-api-rate-limit\<close>.\<close>

record RateLimitData =
  limit_date :: string
  calls :: int
  lastCall :: int

text \<open>Every effect that leaves the function is logged, in the order it happens.\<close>

datatype event =
    DbGet string
  | DbPut string
  | MetaGet string
  | MetaPut string
  | BackendGet string string
  | BackendPost nat
  | ApiRequest CurrencyCode CurrencyCode
  | Sleep int
  | Progress nat nat string
  | Complete nat nat nat

text \<open>
  The state the code runs in: the two IndexedDB object stores, the localStorage item
  (\<open>None\<close> when it is absent or does not parse), the clock (\<^verbatim>\<open>Date.now()\<close> and the
  date \<^verbatim>\<open>getTodayDate()\<close> reads, the day taken as fixed while one operation runs), what
  the provider and the shared store answer, the order in which the event loop resumes
  two calls that run together (\<open>schedule w i\<close> tells whether the first of them takes
  turn \<open>i\<close>), and the log of effects. The answers of the two services are fixed in a
  state: no operation below reads a pair from the shared store after writing it, nor
  asks the provider twice for one pair.
\<close>

record 'n world =
  currencyData :: "string \<rightharpoonup> (string, 'n) CurrencyData"
  metadata :: "string \<rightharpoonup> string"
  rateLimit :: "RateLimitData option"
  today :: string
  now :: int
  alphaVantage :: "CurrencyCode \<Rightarrow> CurrencyCode \<Rightarrow> 'n AlphaVantageResponse http"
  getRates :: "string \<Rightarrow> string \<Rightarrow> 'n RatesResponse http"
  postRates :: "'n BackendRate list \<Rightarrow> bool http"
  schedule :: "nat \<Rightarrow> bool"
  trace :: "event list"

definition emit :: "event \<Rightarrow> 'n world \<Rightarrow> 'n world" where
  "emit e w = w\<lparr>trace := trace w @ [e]\<rparr>"

text \<open>The errors thrown, all \<^verbatim>\<open>new Error(...)\<close> in the source, told apart by their cause.\<close>

datatype error =
    BudgetExceeded
  | HttpStatus nat
  | ProviderNote
  | ProviderErrorMessage string
  | FetchRejected
  | JsonRejected

section \<open>rateLimiter.ts\<close>

definition SAFE_LIMIT :: int where
  "SAFE_LIMIT = 24"

definition getTodayDate :: "'n world \<Rightarrow> string" where
  "getTodayDate w = today w"

definition loadData :: "'n world \<Rightarrow> RateLimitData" where
  "loadData w =
     (case rateLimit w of
        Some d \<Rightarrow>
          if limit_date d \<noteq> getTodayDate w
          then \<lparr>limit_date = getTodayDate w, calls = 0, lastCall = 0\<rparr>
          else d
      | None \<Rightarrow> \<lparr>limit_date = getTodayDate w, calls = 0, lastCall = 0\<rparr>)"

definition saveData :: "RateLimitData \<Rightarrow> 'n world \<Rightarrow> 'n world" where
  "saveData d w = w\<lparr>rateLimit := Some d\<rparr>"

definition canMakeApiCall :: "'n world \<Rightarrow> bool" where
  "canMakeApiCall w = (calls (loadData w) < SAFE_LIMIT)"

definition recordApiCall :: "'n world \<Rightarrow> 'n world" where
  "recordApiCall w =
     (let d = loadData w
      in saveData (d\<lparr>calls := calls d + 1, lastCall := now w\<rparr>) w)"

definition getCallsToday :: "'n world \<Rightarrow> int" where
  "getCallsToday w = calls (loadData w)"

definition getTimeUntilNextCall :: "'n world \<Rightarrow> int" where
  "getTimeUntilNextCall w =
     (let d = loadData w; elapsed = now w - lastCall d
      in max 0 (12000 - elapsed))"

section \<open>cacheManager.ts\<close>

definition getPairKey :: "CurrencyCode \<Rightarrow> CurrencyCode \<Rightarrow> string" where
  "getPairKey from to = code from @ ''/'' @ code to"

definition saveCurrencyData ::
  "CurrencyCode \<Rightarrow> CurrencyCode \<Rightarrow> 'n DailyRate list \<Rightarrow> 'n world \<Rightarrow> 'n world" where
  "saveCurrencyData from to rs w =
     (let key = getPairKey from to;
          stored = \<lparr>pair = key, rates = rs, lastUpdated = now w\<rparr>
      in emit (DbPut key) (w\<lparr>currencyData := (currencyData w)(key \<mapsto> stored)\<rparr>))"

definition getCurrencyData ::
  "CurrencyCode \<Rightarrow> CurrencyCode \<Rightarrow> 'n world
    \<Rightarrow> (CurrencyPair, 'n) CurrencyData option \<times> 'n world" where
  "getCurrencyData from to w =
     (let key = getPairKey from to
      in (case currencyData w key of
            Some d \<Rightarrow>
              Some \<lparr>pair = \<lparr>pair_from = from, pair_to = to\<rparr>,
                    rates = rates d, lastUpdated = lastUpdated d\<rparr>
          | None \<Rightarrow> None,
          emit (DbGet key) w))"

definition hasCachedData :: "CurrencyCode \<Rightarrow> CurrencyCode \<Rightarrow> 'n world \<Rightarrow> bool \<times> 'n world" where
  "hasCachedData from to w =
     (case getCurrencyData from to w of
        (None, w') \<Rightarrow> (False, w')
      | (Some d, w') \<Rightarrow> (length (rates d) > 0, w'))"

definition getMetadata :: "string \<Rightarrow> 'n world \<Rightarrow> string option \<times> 'n world" where
  "getMetadata key w = (metadata w key, emit (MetaGet key) w)"

definition saveMetadata :: "string \<Rightarrow> string \<Rightarrow> 'n world \<Rightarrow> 'n world" where
  "saveMetadata key v w = emit (MetaPut key) (w\<lparr>metadata := (metadata w)(key \<mapsto> v)\<rparr>)"

definition areAllBasePairsUpdatedToday :: "'n world \<Rightarrow> bool \<times> 'n world" where
  "areAllBasePairsUpdatedToday w =
     (case getMetadata ''lastBatchUpdateDate'' w of
        (lastUpdateDate, w') \<Rightarrow> (lastUpdateDate = Some (getTodayDate w'), w'))"

definition markBatchUpdateComplete :: "'n world \<Rightarrow> 'n world" where
  "markBatchUpdateComplete w = saveMetadata ''lastBatchUpdateDate'' (getTodayDate w) w"

section \<open>backendApi.ts\<close>

text \<open>
  \<^verbatim>\<open>fetchRatesFromBackend\<close> catches everything it throws and returns \<^verbatim>\<open>[]\<close>; the
  optional date range is never passed by the code modelled here.
\<close>

definition fetchRatesFromBackend ::
  "string \<Rightarrow> string \<Rightarrow> 'n world \<Rightarrow> 'n ExchangeRateRecord list \<times> 'n world" where
  "fetchRatesFromBackend from to w =
     (let w' = emit (BackendGet from to) w
      in case getRates w from to of
           Rejected \<Rightarrow> ([], w')
         | Response ok status body \<Rightarrow>
             if \<not> ok then ([], w')
             else (case body of
                     None \<Rightarrow> ([], w')
                   | Some result \<Rightarrow> if \<not> success result then ([], w') else (data result, w')))"

definition saveRatesToBackend :: "'n BackendRate list \<Rightarrow> 'n world \<Rightarrow> bool \<times> 'n world" where
  "saveRatesToBackend rs w =
     (let w' = emit (BackendPost (length rs)) w
      in case postRates w rs of
           Rejected \<Rightarrow> (False, w')
         | Response ok status body \<Rightarrow>
             if \<not> ok then (False, w')
             else (case body of None \<Rightarrow> (False, w') | Some result \<Rightarrow> (result, w')))"

section \<open>currencyApi.ts\<close>

text \<open>
  \<^verbatim>\<open>parseRates\<close>: the entries of the time series in ascending order of date.
  \<^verbatim>\<open>localeCompare\<close> is taken as the order of the characters, with which it agrees on
  ISO dates; the sort is stable, as \<^verbatim>\<open>Array.prototype.sort\<close> is.
\<close>

definition parseRates :: "'n AlphaVantageResponse \<Rightarrow> 'n DailyRate list" where
  "parseRates d =
     (case TimeSeries d of
        None \<Rightarrow> []
      | Some timeSeries \<Rightarrow>
          sort_key date
            (map (\<lambda>(day, v_open, v_high, v_low, v_close).
                    \<lparr>date = day, open = v_open, high = v_high, low = v_low, close = v_close\<rparr>)
                 timeSeries))"

text \<open>A string field is truthy when it is present and not empty.\<close>

definition truthy :: "string option \<Rightarrow> bool" where
  "truthy s = (case s of None \<Rightarrow> False | Some t \<Rightarrow> t \<noteq> [])"

definition setTimeout :: "int \<Rightarrow> 'n world \<Rightarrow> 'n world" where
  "setTimeout ms w = emit (Sleep ms) (w\<lparr>now := now w + ms\<rparr>)"

definition fetchFromApi ::
  "CurrencyCode \<Rightarrow> CurrencyCode \<Rightarrow> 'n world \<Rightarrow> (error + 'n DailyRate list) \<times> 'n world" where
  "fetchFromApi from to w =
     (if \<not> canMakeApiCall w then (Inl BudgetExceeded, w)
      else
        let waitTime = getTimeUntilNextCall w;
            w1 = (if waitTime > 0 then setTimeout waitTime w else w);
            w2 = emit (ApiRequest from to) w1
        in case alphaVantage w2 from to of
             Rejected \<Rightarrow> (Inl FetchRejected, w2)
           | Response ok status body \<Rightarrow>
               let w3 = recordApiCall w2
               in if \<not> ok then (Inl (HttpStatus status), w3)
                  else (case body of
                          None \<Rightarrow> (Inl JsonRejected, w3)
                        | Some d \<Rightarrow>
                            if truthy (Note d) then (Inl ProviderNote, w3)
                            else if truthy (ErrorMessage d)
                            then (Inl (ProviderErrorMessage (the (ErrorMessage d))), w3)
                            else (Inr (parseRates d), w3)))"

text \<open>
  \<^verbatim>\<open>calculateCrossRate\<close>: a \<^verbatim>\<open>Map\<close> from date to rate is filled from the second series
  (a later rate of a date replaces an earlier one), the first series is filtered by the
  dates the map has, and each rate left is divided by the rate the map gives.
\<close>

definition calculateCrossRate :: "('n::inverse) DailyRate list \<Rightarrow> 'n DailyRate list \<Rightarrow> 'n DailyRate list" where
  "calculateCrossRate fromToUsd toToUsd =
     (let toUsdMap = foldl (\<lambda>m rate. m(date rate \<mapsto> rate)) Map.empty toToUsd
      in map (\<lambda>fromRate.
                let toRate = the (toUsdMap (date fromRate))
                in \<lparr>date = date fromRate,
                    open = open fromRate / open toRate,
                    high = high fromRate / low toRate,
                    low = low fromRate / high toRate,
                    close = close fromRate / close toRate\<rparr>)
             (filter (\<lambda>fromRate. toUsdMap (date fromRate) \<noteq> None) fromToUsd))"

text \<open>
  The two calls that \<^verbatim>\<open>getCurrencyPairData\<close> starts under \<^verbatim>\<open>Promise.all\<close> are
  calls for a pair \<open>(from, base)\<close> with \<open>from\<close> other than the base, so each runs the
  last case of the function (steps 1 to 3). They run together: each runs from one
  \<^verbatim>\<open>await\<close> to the next without interruption, and at an \<^verbatim>\<open>await\<close> the other may be
  resumed. A \<open>leg\<close> is the point such a call has reached, with what it holds there:
  \<^item> \<open>Called\<close>: the read of the cache is awaited;
  \<^item> \<open>CacheAnswered cached\<close>: the cache has answered;
  \<^item> \<open>BackendAnswered cached rows\<close>: the shared store has answered (step 2);
  \<^item> \<open>TimerSet cached wake\<close>: \<^verbatim>\<open>fetchFromApi\<close> has passed \<^verbatim>\<open>canMakeApiCall\<close> and waits
    for its timer, which fires at \<open>wake\<close> or later;
  \<^item> \<open>RequestSent cached\<close>: \<^verbatim>\<open>fetchFromApi\<close> has sent its request, the response is
    awaited;
  \<^item> \<open>Responded cached body\<close>: the response has come with \<^verbatim>\<open>ok\<close> set and the call is
    recorded, \<^verbatim>\<open>response.json()\<close> is awaited;
  \<^item> \<open>Fetched rs\<close>: \<^verbatim>\<open>fetchFromApi\<close> has returned, the write to the cache is awaited;
  \<^item> \<open>Saved rs\<close>: the cache is written;
  \<^item> \<open>Settled r\<close>: the call has returned \<open>Inr\<close> or thrown \<open>Inl\<close>.
  An \<^verbatim>\<open>await\<close> after which the call neither throws nor touches what the two legs share
  (the budget, the clock) before its next \<^verbatim>\<open>await\<close> is not a point of its own.
\<close>

type_synonym 'n cached = "(CurrencyPair, 'n) CurrencyData option"

datatype 'n leg =
    Called
  | CacheAnswered "'n cached"
  | BackendAnswered "'n cached" "'n ExchangeRateRecord list"
  | TimerSet "'n cached" int
  | RequestSent "'n cached"
  | Responded "'n cached" "'n AlphaVantageResponse option"
  | Fetched "'n DailyRate list"
  | Saved "'n DailyRate list"
  | Settled "error + 'n DailyRate list"

text \<open>The \<^verbatim>\<open>catch\<close> of step 3: the stale copy when there is one, the error otherwise.\<close>

definition caught :: "'n cached \<Rightarrow> error \<Rightarrow> error + 'n DailyRate list" where
  "caught cached e =
     (if cached \<noteq> None \<and> length (rates (the cached)) > 0
      then Inr (rates (the cached))
      else Inl e)"

text \<open>
  Step 3 up to its first \<^verbatim>\<open>await\<close>: the test of the step, then \<^verbatim>\<open>fetchFromApi\<close> down
  to its timer or, with nothing to wait for, to its request.
\<close>

definition startFetch ::
  "CurrencyCode \<Rightarrow> CurrencyCode \<Rightarrow> bool \<Rightarrow> 'n cached \<Rightarrow> 'n world \<Rightarrow> 'n leg \<times> 'n world" where
  "startFetch from to forceRefresh cached w =
     (if forceRefresh \<or> cached = None \<or> length (rates (the cached)) = 0 then
        (if \<not> canMakeApiCall w then (Settled (caught cached BudgetExceeded), w)
         else
           let waitTime = getTimeUntilNextCall w
           in if waitTime > 0 then (TimerSet cached (now w + waitTime), emit (Sleep waitTime) w)
              else (RequestSent cached, emit (ApiRequest from to) w))
      else (Settled (Inr []), w))"

text \<open>What a leg does when it is resumed, down to its next \<^verbatim>\<open>await\<close> or its return.\<close>

fun legStep ::
  "CurrencyCode \<Rightarrow> CurrencyCode \<Rightarrow> bool \<Rightarrow> 'n leg \<Rightarrow> 'n world \<Rightarrow> 'n leg \<times> 'n world" where
  "legStep from to forceRefresh Called w =
     (case getCurrencyData from to w of (cached, w1) \<Rightarrow> (CacheAnswered cached, w1))"
| "legStep from to forceRefresh (CacheAnswered cached) w =
     (if cached \<noteq> None \<and> length (rates (the cached)) > 0 \<and> \<not> forceRefresh
      then (Settled (Inr (rates (the cached))), w)
      else if \<not> forceRefresh then
        (case fetchRatesFromBackend (code from) (code to) w of
           (backendRates, w2) \<Rightarrow> (BackendAnswered cached backendRates, w2))
      else startFetch from to forceRefresh cached w)"
| "legStep from to forceRefresh (BackendAnswered cached backendRates) w =
     (if length backendRates > 0 then
        (let rs = map (\<lambda>r. \<lparr>date = date r, open = open r, high = high r,
                             low = low r, close = close r\<rparr>) backendRates
         in (Settled (Inr rs), saveCurrencyData from to rs w))
      else startFetch from to forceRefresh cached w)"
| "legStep from to forceRefresh (TimerSet cached wake) w =
     (RequestSent cached, emit (ApiRequest from to) (w\<lparr>now := max (now w) wake\<rparr>))"
| "legStep from to forceRefresh (RequestSent cached) w =
     (case alphaVantage w from to of
        Rejected \<Rightarrow> (Settled (caught cached FetchRejected), w)
      | Response ok status body \<Rightarrow>
          let w3 = recordApiCall w
          in if \<not> ok then (Settled (caught cached (HttpStatus status)), w3)
             else (Responded cached body, w3))"
| "legStep from to forceRefresh (Responded cached body) w =
     (case body of
        None \<Rightarrow> (Settled (caught cached JsonRejected), w)
      | Some d \<Rightarrow>
          if truthy (Note d) then (Settled (caught cached ProviderNote), w)
          else if truthy (ErrorMessage d)
          then (Settled (caught cached (ProviderErrorMessage (the (ErrorMessage d)))), w)
          else (Fetched (parseRates d), w))"
| "legStep from to forceRefresh (Fetched rs) w = (Saved rs, saveCurrencyData from to rs w)"
| "legStep from to forceRefresh (Saved rs) w =
     (Settled (Inr rs),
      if length rs > 0
      then snd (saveRatesToBackend
             (map (\<lambda>r. \<lparr>date = date r, open = open r, high = high r,
                          low = low r, close = close r,
                          rate_from = from, rate_to = to\<rparr>) rs) w)
      else w)"
| "legStep from to forceRefresh (Settled r) w = (Settled r, w)"

fun settled :: "'n leg \<Rightarrow> (error + 'n DailyRate list) option" where
  "settled (Settled r) = Some r"
| "settled l = None"

text \<open>The number of times a leg can still be resumed, at most.\<close>

fun remaining :: "'n leg \<Rightarrow> nat" where
  "remaining Called = 8"
| "remaining (CacheAnswered cached) = 7"
| "remaining (BackendAnswered cached backendRates) = 6"
| "remaining (TimerSet cached wake) = 5"
| "remaining (RequestSent cached) = 4"
| "remaining (Responded cached body) = 3"
| "remaining (Fetched rs) = 2"
| "remaining (Saved rs) = 1"
| "remaining (Settled r) = 0"

text \<open>A leg run alone, from where it is to its return.\<close>

function runLeg ::
  "CurrencyCode \<Rightarrow> CurrencyCode \<Rightarrow> bool \<Rightarrow> 'n leg \<Rightarrow> 'n world
    \<Rightarrow> (error + 'n DailyRate list) \<times> 'n world" where
  "runLeg from to forceRefresh l w =
     (case settled l of
        Some r \<Rightarrow> (r, w)
      | None \<Rightarrow>
          (case legStep from to forceRefresh l w of
             (l', w') \<Rightarrow> runLeg from to forceRefresh l' w'))"
  by pat_completeness auto
termination
  apply (relation "measure (\<lambda>(from, to, forceRefresh, l, w). remaining l)")
   apply simp
  subgoal for c1 c2 forceRefresh l w
    by (cases l)
      (auto simp: startFetch_def Let_def split: prod.splits if_splits http.splits option.splits)
  done

declare runLeg.simps [simp del]

text \<open>
  \<^verbatim>\<open>Promise.all\<close> of the two legs: at turn \<open>i\<close> a leg that has not returned is resumed,
  the one \<open>schedule w i\<close> names when both can be; \<open>rejection\<close> is the first error thrown
  by a leg, with which \<^verbatim>\<open>Promise.all\<close> rejects. The state returned is the one both
  legs leave: a leg goes on to its end when the other has thrown.
\<close>

definition firstRejection :: "error option \<Rightarrow> 'n leg \<Rightarrow> error option" where
  "firstRejection rejection l =
     (case rejection of
        Some e \<Rightarrow> Some e
      | None \<Rightarrow> (case settled l of Some (Inl e) \<Rightarrow> Some e | _ \<Rightarrow> None))"

function promiseAll ::
  "CurrencyCode \<Rightarrow> CurrencyCode \<Rightarrow> CurrencyCode \<Rightarrow> bool \<Rightarrow> nat \<Rightarrow> error option
    \<Rightarrow> 'n leg \<Rightarrow> 'n leg \<Rightarrow> 'n world
    \<Rightarrow> ((error + 'n DailyRate list) \<times> (error + 'n DailyRate list) \<times> error option) \<times> 'n world" where
  "promiseAll from1 from2 to forceRefresh i rejection l1 l2 w =
     (case (settled l1, settled l2) of
        (Some r1, Some r2) \<Rightarrow> ((r1, r2, rejection), w)
      | (None, Some r2) \<Rightarrow>
          (case legStep from1 to forceRefresh l1 w of
             (l1', w') \<Rightarrow>
               promiseAll from1 from2 to forceRefresh (i + 1) (firstRejection rejection l1') l1' l2 w')
      | (Some r1, None) \<Rightarrow>
          (case legStep from2 to forceRefresh l2 w of
             (l2', w') \<Rightarrow>
               promiseAll from1 from2 to forceRefresh (i + 1) (firstRejection rejection l2') l1 l2' w')
      | (None, None) \<Rightarrow>
          if schedule w i then
            (case legStep from1 to forceRefresh l1 w of
               (l1', w') \<Rightarrow>
                 promiseAll from1 from2 to forceRefresh (i + 1) (firstRejection rejection l1') l1' l2 w')
          else
            (case legStep from2 to forceRefresh l2 w of
               (l2', w') \<Rightarrow>
                 promiseAll from1 from2 to forceRefresh (i + 1) (firstRejection rejection l2') l1 l2' w'))"
  by pat_completeness auto
termination
  apply (relation "measure (\<lambda>(from1, from2, to, forceRefresh, i, rejection, l1, l2, w).
                              remaining l1 + remaining l2)")
      apply simp
  subgoal for c1 c2 c3 forceRefresh i rejection l1 l2 w
    by (cases l1)
      (auto simp: startFetch_def Let_def split: prod.splits if_splits http.splits option.splits)
  subgoal for c1 c2 c3 forceRefresh i rejection l1 l2 w
    by (cases l2)
      (auto simp: startFetch_def Let_def split: prod.splits if_splits http.splits option.splits)
  subgoal for c1 c2 c3 forceRefresh i rejection l1 l2 w
    by (cases l1)
      (auto simp: startFetch_def Let_def split: prod.splits if_splits http.splits option.splits)
  subgoal for c1 c2 c3 forceRefresh i rejection l1 l2 w
    by (cases l2)
      (auto simp: startFetch_def Let_def split: prod.splits if_splits http.splits option.splits)
  done

declare promiseAll.simps [simp del]

text \<open>
  \<^verbatim>\<open>getCurrencyPairData\<close>. The object store and \<^verbatim>\<open>saveRatesToBackend\<close> do not throw,
  so the only error the \<^verbatim>\<open>try\<close> of step 3 can catch is one of \<^verbatim>\<open>fetchFromApi\<close>. A
  single call runs to its end; the two calls of the second case run together, as
  \<open>promiseAll\<close> has them.
\<close>

function getCurrencyPairData ::
  "CurrencyCode \<Rightarrow> CurrencyCode \<Rightarrow> bool \<Rightarrow> ('n::{one,inverse}) world
    \<Rightarrow> (error + 'n DailyRate list) \<times> 'n world" where
  "getCurrencyPairData from to forceRefresh w =
     (if from = to then (Inr [], w)
      else if from = BASE_CURRENCY \<and> to \<noteq> BASE_CURRENCY then
        (case getCurrencyPairData to BASE_CURRENCY forceRefresh w of
           (Inl e, w') \<Rightarrow> (Inl e, w')
         | (Inr directRate, w') \<Rightarrow>
             if length directRate = 0 then (Inr [], w')
             else (Inr (map (\<lambda>rate. \<lparr>date = date rate,
                                       open = 1 / open rate,
                                       high = 1 / low rate,
                                       low = 1 / high rate,
                                       close = 1 / close rate\<rparr>) directRate), w'))
      else if from \<noteq> BASE_CURRENCY \<and> to \<noteq> BASE_CURRENCY then
        (case promiseAll from to BASE_CURRENCY forceRefresh 0 None Called Called w of
           ((r1, r2, rejection), w2) \<Rightarrow>
             (case rejection of
                Some e \<Rightarrow> (Inl e, w2)
              | None \<Rightarrow>
                  (case r1 of
                     Inl e \<Rightarrow> (Inl e, w2)
                   | Inr fromToUsd \<Rightarrow>
                       (case r2 of
                          Inl e \<Rightarrow> (Inl e, w2)
                        | Inr toToUsd \<Rightarrow>
                            if length fromToUsd = 0 \<or> length toToUsd = 0 then (Inr [], w2)
                            else (Inr (calculateCrossRate fromToUsd toToUsd), w2)))))
      else
        (case getCurrencyData from to w of
           (cached, w1) \<Rightarrow>
             if cached \<noteq> None \<and> length (rates (the cached)) > 0 \<and> \<not> forceRefresh
             then (Inr (rates (the cached)), w1)
             else
               (case (if \<not> forceRefresh
                      then (case fetchRatesFromBackend (code from) (code to) w1 of
                              (backendRates, w2) \<Rightarrow>
                                if length backendRates > 0 then
                                  (let rs = map (\<lambda>r. \<lparr>date = date r, open = open r, high = high r,
                                                        low = low r, close = close r\<rparr>) backendRates
                                   in (Some rs, saveCurrencyData from to rs w2))
                                else (None, w2))
                      else (None, w1)) of
                  (Some rs, w2) \<Rightarrow> (Inr rs, w2)
                | (None, w2) \<Rightarrow>
                    if forceRefresh \<or> cached = None \<or> length (rates (the cached)) = 0 then
                      (case fetchFromApi from to w2 of
                         (Inr rs, w3) \<Rightarrow>
                           (let w4 = saveCurrencyData from to rs w3;
                                w5 = (if length rs > 0
                                      then snd (saveRatesToBackend
                                             (map (\<lambda>r. \<lparr>date = date r, open = open r, high = high r,
                                                          low = low r, close = close r,
                                                          rate_from = from, rate_to = to\<rparr>) rs) w4)
                                      else w4)
                            in (Inr rs, w5))
                       | (Inl e, w3) \<Rightarrow>
                           if cached \<noteq> None \<and> length (rates (the cached)) > 0
                           then (Inr (rates (the cached)), w3)
                           else (Inl e, w3))
                    else (Inr [], w2))))"
  by pat_completeness auto
termination
  by (relation "measure (\<lambda>(from, to, forceRefresh, w). if to = BASE_CURRENCY then 0 else 1)") auto

declare getCurrencyPairData.simps [simp del]

text \<open>
  \<^verbatim>\<open>prefetchBasePairs\<close>: the \<^verbatim>\<open>for\<close> loop over \<^verbatim>\<open>FETCH_CURRENCIES\<close> with its three
  counters, the callback \<^verbatim>\<open>onProgress\<close> logged as an event.
\<close>

record BatchResult =
  success :: nat
  failed :: nat

record SyncResult = BatchResult +
  totalRecords :: nat

fun prefetchLoop ::
  "CurrencyCode list \<Rightarrow> nat \<Rightarrow> nat \<times> nat \<times> nat \<Rightarrow> 'n world \<Rightarrow> (nat \<times> nat \<times> nat) \<times> 'n world" where
  "prefetchLoop [] n_total (current, n_success, n_failed) w = ((current, n_success, n_failed), w)"
| "prefetchLoop (currency # rest) n_total (current, n_success, n_failed) w =
     (case fetchFromApi currency BASE_CURRENCY w of
        (Inr rs, w1) \<Rightarrow>
          (let w2 = saveCurrencyData currency BASE_CURRENCY rs w1;
               w3 = emit (Progress (current + 1) n_total (code currency)) w2
           in prefetchLoop rest n_total (current + 1, n_success + 1, n_failed) w3)
      | (Inl e, w1) \<Rightarrow>
          (let w2 = emit (Progress (current + 1) n_total (code currency)) w1
           in prefetchLoop rest n_total (current + 1, n_success, n_failed + 1) w2))"

definition prefetchBasePairs :: "bool \<Rightarrow> 'n world \<Rightarrow> BatchResult \<times> 'n world" where
  "prefetchBasePairs forceRefresh w =
     (case (if \<not> forceRefresh then areAllBasePairsUpdatedToday w else (False, w)) of
        (alreadyUpdated, w0) \<Rightarrow>
          if alreadyUpdated then (\<lparr>success = length FETCH_CURRENCIES, failed = 0\<rparr>, w0)
          else
            (case prefetchLoop FETCH_CURRENCIES (length FETCH_CURRENCIES) (0, 0, 0) w0 of
               ((current, n_success, n_failed), w1) \<Rightarrow>
                 (let w2 = (if n_failed = 0 then markBatchUpdateComplete w1 else w1)
                  in (\<lparr>success = n_success, failed = n_failed\<rparr>, w2))))"

text \<open>
  \<^verbatim>\<open>backgroundSyncFromBackend\<close>: the detached task, run here to its end; the callback
  \<^verbatim>\<open>onComplete\<close> is logged as an event. Nothing in the body of the loop throws in this
  model, so its \<^verbatim>\<open>catch\<close> is never entered.
\<close>

definition orderedCurrencies :: "CurrencyCode option \<Rightarrow> CurrencyCode list" where
  "orderedCurrencies priorityCurrency =
     (case priorityCurrency of
        None \<Rightarrow> FETCH_CURRENCIES
      | Some p \<Rightarrow>
          if p \<noteq> BASE_CURRENCY then p # filter (\<lambda>c. c \<noteq> p) FETCH_CURRENCIES
          else FETCH_CURRENCIES)"

fun syncLoop ::
  "CurrencyCode list \<Rightarrow> nat \<times> nat \<times> nat \<Rightarrow> 'n world \<Rightarrow> (nat \<times> nat \<times> nat) \<times> 'n world" where
  "syncLoop [] (n_success, n_failed, n_records) w = ((n_success, n_failed, n_records), w)"
| "syncLoop (currency # rest) (n_success, n_failed, n_records) w =
     (case hasCachedData currency BASE_CURRENCY w of
        (hasData, w1) \<Rightarrow>
          if hasData then syncLoop rest (n_success + 1, n_failed, n_records) w1
          else
            (case fetchRatesFromBackend (code currency) (code BASE_CURRENCY) w1 of
               (backendRates, w2) \<Rightarrow>
                 if length backendRates > 0 then
                   (let rs = map (\<lambda>r. \<lparr>date = date r, open = open r, high = high r,
                                        low = low r, close = close r\<rparr>) backendRates;
                        w3 = saveCurrencyData currency BASE_CURRENCY rs w2
                    in syncLoop rest (n_success + 1, n_failed, n_records + length rs) w3)
                 else syncLoop rest (n_success, n_failed + 1, n_records) w2))"

definition backgroundSyncFromBackend :: "CurrencyCode option \<Rightarrow> 'n world \<Rightarrow> 'n world" where
  "backgroundSyncFromBackend priorityCurrency w =
     (case syncLoop (orderedCurrencies priorityCurrency) (0, 0, 0) w of
        ((n_success, n_failed, n_records), w1) \<Rightarrow>
          emit (Complete n_success n_failed n_records) w1)"

section \<open>The specification's notions\<close>

text \<open>
  The inversion of a rate and the division of a rate by another, as the specification
  words them, and the inner join of two series on equal dates.
\<close>

definition invertRate :: "('n::{one,inverse}) DailyRate \<Rightarrow> 'n DailyRate" where
  "invertRate r =
     \<lparr>date = date r, open = 1 / open r, high = 1 / low r, low = 1 / high r, close = 1 / close r\<rparr>"

definition crossDivide :: "('n::inverse) DailyRate \<Rightarrow> 'n DailyRate \<Rightarrow> 'n DailyRate" where
  "crossDivide f t =
     \<lparr>date = date f, open = open f / open t, high = high f / low t,
      low = low f / high t, close = close f / close t\<rparr>"

definition innerJoin :: "('n::inverse) DailyRate list \<Rightarrow> 'n DailyRate list \<Rightarrow> 'n DailyRate list" where
  "innerJoin fs ts = concat (map (\<lambda>f. map (crossDivide f) (filter (\<lambda>t. date t = date f) ts)) fs)"

text \<open>
  A row of the shared store read as a rate; the kinds of events, and the requests to the
  provider and the reads of the shared store counted in the log.
\<close>

definition dailyRate :: "('n, 'z) DailyRate_scheme \<Rightarrow> 'n DailyRate" where
  "dailyRate r = \<lparr>date = date r, open = open r, high = high r, low = low r, close = close r\<rparr>"

fun isApiRequest :: "event \<Rightarrow> bool" where
  "isApiRequest (ApiRequest from to) = True"
| "isApiRequest e = False"

fun isBackendGet :: "event \<Rightarrow> bool" where
  "isBackendGet (BackendGet from to) = True"
| "isBackendGet e = False"

definition apiRequests :: "'n world \<Rightarrow> nat" where
  "apiRequests w = length (filter isApiRequest (trace w))"

definition backendReads :: "'n world \<Rightarrow> nat" where
  "backendReads w = length (filter isBackendGet (trace w))"

fun isProgress :: "event \<Rightarrow> bool" where
  "isProgress (Progress current n_total currency) = True"
| "isProgress e = False"

fun isDbGet :: "event \<Rightarrow> bool" where
  "isDbGet (DbGet key) = True"
| "isDbGet e = False"

fun isDbPut :: "event \<Rightarrow> bool" where
  "isDbPut (DbPut key) = True"
| "isDbPut e = False"

fun cacheOrBackend :: "event \<Rightarrow> bool" where
  "cacheOrBackend (DbGet key) = True"
| "cacheOrBackend (DbPut key) = True"
| "cacheOrBackend (BackendGet from to) = True"
| "cacheOrBackend e = False"

text \<open>
  One item of the batch refresh as the specification has it: the adapter is called for
  \<open>(currency, base)\<close> whatever the cache holds, a series it returns replaces the cached
  one, and a failure is an outcome of the item, not the end of the batch. The batch is
  the items in the order of the list, with a progress report after each; it gives the
  outcome of each item.
\<close>

definition refreshOne :: "CurrencyCode \<Rightarrow> 'n world \<Rightarrow> bool \<times> 'n world" where
  "refreshOne currency w =
     (case fetchFromApi currency BASE_CURRENCY w of
        (Inr rs, w1) \<Rightarrow> (True, saveCurrencyData currency BASE_CURRENCY rs w1)
      | (Inl e, w1) \<Rightarrow> (False, w1))"

fun refreshEach :: "(nat \<times> CurrencyCode) list \<Rightarrow> nat \<Rightarrow> 'n world \<Rightarrow> bool list \<times> 'n world" where
  "refreshEach [] n w = ([], w)"
| "refreshEach ((i, currency) # rest) n w =
     (case refreshOne currency w of
        (ok, w1) \<Rightarrow>
          (case refreshEach rest n (emit (Progress (Suc i) n (code currency)) w1) of
             (oks, w2) \<Rightarrow> (ok # oks, w2)))"

section \<open>Example states\<close>

definition emptyWorld :: "real world" where
  "emptyWorld =
     \<lparr>currencyData = Map.empty, metadata = Map.empty, rateLimit = None,
      today = ''2024-04-10'', now = 1712707200000,
      alphaVantage = (\<lambda>from to. Rejected), getRates = (\<lambda>from to. Rejected),
      postRates = (\<lambda>rs. Rejected), schedule = (\<lambda>i. even i), trace = []\<rparr>"

definition eurUsd :: "real DailyRate list" where
  "eurUsd =
     [\<lparr>date = ''2024-01-01'', open = 2, high = 4, low = 1, close = 2\<rparr>,
      \<lparr>date = ''2024-01-02'', open = 4, high = 8, low = 2, close = 4\<rparr>,
      \<lparr>date = ''2024-01-03'', open = 1, high = 2, low = 1, close = 2\<rparr>]"

definition jpyUsd :: "real DailyRate list" where
  "jpyUsd =
     [\<lparr>date = ''2024-01-02'', open = 2, high = 4, low = 1, close = 2\<rparr>,
      \<lparr>date = ''2024-01-03'', open = 1, high = 2, low = 1, close = 1\<rparr>,
      \<lparr>date = ''2024-01-04'', open = 1, high = 1, low = 1, close = 1\<rparr>]"

definition cachedWorld :: "real world" where
  "cachedWorld =
     emptyWorld\<lparr>currencyData :=
       [''EUR/USD'' \<mapsto> \<lparr>pair = ''EUR/USD'', rates = eurUsd, lastUpdated = 0\<rparr>,
        ''JPY/USD'' \<mapsto> \<lparr>pair = ''JPY/USD'', rates = jpyUsd, lastUpdated = 0\<rparr>]\<rparr>"

definition exhaustedWorld :: "real world" where
  "exhaustedWorld =
     cachedWorld\<lparr>rateLimit := Some \<lparr>limit_date = ''2024-04-10'', calls = 24, lastCall = 0\<rparr>\<rparr>"

definition eurRows :: "real ExchangeRateRecord list" where
  "eurRows =
     [\<lparr>date = ''2024-01-01'', open = 2, high = 4, low = 1, close = 2,
       from_currency = ''EUR'', to_currency = ''USD''\<rparr>,
      \<lparr>date = ''2024-01-02'', open = 4, high = 8, low = 2, close = 4,
       from_currency = ''EUR'', to_currency = ''USD''\<rparr>,
      \<lparr>date = ''2024-01-03'', open = 1, high = 2, low = 1, close = 2,
       from_currency = ''EUR'', to_currency = ''USD''\<rparr>]"

definition backendWorld :: "real world" where
  "backendWorld =
     emptyWorld\<lparr>getRates := (\<lambda>from to.
       if from = ''EUR'' \<and> to = ''USD''
       then Response True 200 (Some \<lparr>RatesResponse.success = True, data = eurRows, count = 3\<rparr>)
       else Rejected)\<rparr>"

definition blankProviderWorld :: "real world" where
  "blankProviderWorld =
     emptyWorld\<lparr>alphaVantage := (\<lambda>from to.
       Response True 200 (Some \<lparr>TimeSeries = None, Note = None, ErrorMessage = None\<rparr>))\<rparr>"

definition almostWorld :: "real world" where
  "almostWorld =
     emptyWorld\<lparr>rateLimit := Some \<lparr>limit_date = ''2024-04-10'', calls = 23, lastCall = 0\<rparr>,
       alphaVantage := (\<lambda>from to.
         Response True 200
           (Some \<lparr>TimeSeries = Some [(''2024-01-02'', 4, 8, 2, 4), (''2024-01-01'', 2, 4, 1, 2)],
                  Note = None, ErrorMessage = None\<rparr>))\<rparr>"

definition gbpRows :: "real ExchangeRateRecord list" where
  "gbpRows =
     [\<lparr>date = ''2024-01-01'', open = 5 / 4, high = 3 / 2, low = 1, close = 5 / 4,
       from_currency = ''GBP'', to_currency = ''USD''\<rparr>,
      \<lparr>date = ''2024-01-02'', open = 5 / 4, high = 2, low = 1, close = 3 / 2,
       from_currency = ''GBP'', to_currency = ''USD''\<rparr>]"

definition syncWorld :: "real world" where
  "syncWorld =
     cachedWorld\<lparr>getRates := (\<lambda>from to.
       if from = ''GBP'' \<and> to = ''USD''
       then Response True 200 (Some \<lparr>RatesResponse.success = True, data = gbpRows, count = 2\<rparr>)
       else Rejected)\<rparr>"

definition halfWorld :: "real world" where
  "halfWorld =
     emptyWorld\<lparr>alphaVantage := (\<lambda>from to.
       if from = JPY
       then Response True 200
              (Some \<lparr>TimeSeries = None, Note = Some ''call frequency'', ErrorMessage = None\<rparr>)
       else Response True 200 (Some \<lparr>TimeSeries = None, Note = None, ErrorMessage = None\<rparr>))\<rparr>"

definition raceWorld :: "real world" where
  "raceWorld =
     cachedWorld\<lparr>rateLimit := Some \<lparr>limit_date = ''2024-04-10'', calls = 23, lastCall = 0\<rparr>,
       alphaVantage := (\<lambda>from to.
         Response True 200
           (Some \<lparr>TimeSeries = Some [(''2024-01-02'', 4, 8, 2, 4), (''2024-01-01'', 2, 4, 1, 2)],
                  Note = None, ErrorMessage = None\<rparr>))\<rparr>"

definition mixedWorld :: "real world" where
  "mixedWorld =
     emptyWorld\<lparr>alphaVantage := (\<lambda>from to.
       if from = GBP then
         Response True 200
           (Some \<lparr>TimeSeries = None, Note = Some ''call frequency'', ErrorMessage = None\<rparr>)
       else if from = JPY then Rejected
       else if from = CNY then Response False 500 None
       else if from = AUD then
         Response True 200
           (Some \<lparr>TimeSeries = None, Note = None, ErrorMessage = Some ''Invalid API call''\<rparr>)
       else if from = CHF then
         Response True 200 (Some \<lparr>TimeSeries = None, Note = None, ErrorMessage = None\<rparr>)
       else
         Response True 200
           (Some \<lparr>TimeSeries = Some [(''2024-01-02'', 4, 8, 2, 4), (''2024-01-01'', 2, 4, 1, 2)],
                  Note = None, ErrorMessage = None\<rparr>))\<rparr>"

section \<open>Properties\<close>

lemmas world_eval = emptyWorld_def cachedWorld_def eurUsd_def jpyUsd_def BASE_CURRENCY_def
  getCurrencyData_def getPairKey_def emit_def Let_def

subsection \<open>The map of dates built by \<^verbatim>\<open>calculateCrossRate\<close>\<close>

lemma foldl_dateMap_defined:
  "(foldl (\<lambda>m rate. m(date rate \<mapsto> rate)) m ts d \<noteq> None) = (d \<in> date ` set ts \<or> m d \<noteq> None)"
  by (induction ts arbitrary: m) auto

lemma foldl_dateMap_undefined:
  "d \<notin> date ` set ts \<Longrightarrow> foldl (\<lambda>m rate. m(date rate \<mapsto> rate)) m ts d = m d"
  by (induction ts arbitrary: m) auto

lemma foldl_dateMap_Some:
  "(\<exists>y. foldl (\<lambda>m rate. m(date rate \<mapsto> rate)) m ts d = Some y) = (d \<in> date ` set ts \<or> m d \<noteq> None)"
  using foldl_dateMap_defined[of m ts d] by auto

lemma foldl_dateMap_distinct:
  "distinct (map date ts) \<Longrightarrow> d \<notin> dom m \<Longrightarrow>
   filter (\<lambda>t. date t = d) ts =
     (case foldl (\<lambda>m rate. m(date rate \<mapsto> rate)) m ts d of None \<Rightarrow> [] | Some t \<Rightarrow> [t])"
proof (induction ts arbitrary: m)
  case Nil
  then show ?case by (auto simp: dom_def)
next
  case (Cons t ts)
  show ?case
  proof (cases "date t = d")
    case True
    then have absent: "d \<notin> date ` set ts" using Cons.prems by auto
    then have "filter (\<lambda>t. date t = d) ts = []" by (auto simp: filter_empty_conv)
    moreover have "foldl (\<lambda>m rate. m(date rate \<mapsto> rate)) (m(date t \<mapsto> t)) ts d = Some t"
      using absent True foldl_dateMap_undefined[of d ts "m(date t \<mapsto> t)"] by simp
    ultimately show ?thesis using True by (simp del: fun_upd_apply)
  next
    case False
    then show ?thesis
      using Cons.IH[of "m(date t \<mapsto> t)"] Cons.prems by (simp del: fun_upd_apply)
  qed
qed

lemma cross_dates:
  "map date (calculateCrossRate fs ts) = filter (\<lambda>d. d \<in> date ` set ts) (map date fs)"
  by (simp add: calculateCrossRate_def Let_def foldl_dateMap_Some filter_map comp_def)

lemma cross_date_set:
  "date ` set (calculateCrossRate fs ts) = date ` set fs \<inter> date ` set ts"
proof -
  have "set (map date (calculateCrossRate fs ts)) =
      set (filter (\<lambda>d. d \<in> date ` set ts) (map date fs))"
    by (simp only: cross_dates)
  then show ?thesis by auto
qed

lemma cross_is_join: "distinct (map date ts) \<Longrightarrow> calculateCrossRate fs ts = innerJoin fs ts"
proof (induction fs)
  case Nil
  then show ?case by (simp add: calculateCrossRate_def innerJoin_def)
next
  case (Cons f fs)
  have "filter (\<lambda>t. date t = date f) ts =
     (case foldl (\<lambda>m rate. m(date rate \<mapsto> rate)) Map.empty ts (date f) of
        None \<Rightarrow> [] | Some t \<Rightarrow> [t])"
    using Cons.prems by (intro foldl_dateMap_distinct) auto
  then show ?case using Cons
    by (auto simp: calculateCrossRate_def innerJoin_def Let_def crossDivide_def split: option.splits)
qed

subsection \<open>Resolution of a pair\<close>

text \<open>
  C9. For every currency \<open>X\<close> and either value of \<open>forceRefresh\<close>, resolving
  \<open>(X, X)\<close> returns the empty series, raises nothing and leaves the state as it was:
  no cache read, no request to the shared store or to the provider is logged.
\<close>

theorem same_currency_is_empty:
  "getCurrencyPairData X X forceRefresh w = (Inr [], w)"
  by (subst getCurrencyPairData.simps) simp

text \<open>
  C3. For every currency \<open>X\<close> other than the base, resolving \<open>(base, X)\<close> runs the
  resolution of \<open>(X, base)\<close> and inverts each rate of its result: open, close become
  their reciprocals, high becomes the reciprocal of low and low that of high; errors
  pass through, the state is the one the inner resolution leaves, and the dates keep
  their order.
\<close>

theorem base_first_is_inversion:
  "X \<noteq> BASE_CURRENCY \<Longrightarrow>
   getCurrencyPairData BASE_CURRENCY X f w =
     (case getCurrencyPairData X BASE_CURRENCY f w of
        (Inl e, w') \<Rightarrow> (Inl e, w')
      | (Inr rs, w') \<Rightarrow> (Inr (map invertRate rs), w'))
   \<and> map date (map invertRate rs) = map date rs"
  apply (subst getCurrencyPairData.simps[of BASE_CURRENCY X])
  apply (auto simp: invertRate_def comp_def split: prod.splits sum.splits)
  done

theorem base_first_is_inversion_witness:
  "EUR \<noteq> BASE_CURRENCY \<and>
   fst (getCurrencyPairData BASE_CURRENCY EUR False cachedWorld) =
     Inr [\<lparr>date = ''2024-01-01'', open = 1 / 2, high = 1, low = 1 / 4, close = 1 / 2\<rparr>,
          \<lparr>date = ''2024-01-02'', open = 1 / 4, high = 1 / 2, low = 1 / 8, close = 1 / 4\<rparr>,
          \<lparr>date = ''2024-01-03'', open = 1, high = 1, low = 1 / 2, close = 1 / 2\<rparr>]"
  using base_first_is_inversion[of EUR False cachedWorld]
  by (simp add: getCurrencyPairData.simps[of EUR USD] world_eval invertRate_def)

subsection \<open>Cross rates\<close>

text \<open>
  C10. The dates of the series \<^verbatim>\<open>calculateCrossRate\<close> returns are the dates of its
  first argument that occur in the second, in the order of the first argument; so a
  first argument ascending by date without a repeated date gives a cross series
  ascending by date without a repeated date.
\<close>

theorem cross_rate_keeps_from_order:
  "map date (calculateCrossRate fs ts) = filter (\<lambda>d. d \<in> date ` set ts) (map date fs)
   \<and> (sorted (map date fs) \<and> distinct (map date fs) \<longrightarrow>
        sorted (map date (calculateCrossRate fs ts)) \<and>
        distinct (map date (calculateCrossRate fs ts)))"
  by (simp add: cross_dates sorted_wrt_filter)

theorem cross_rate_keeps_from_order_witness:
  "sorted (map date eurUsd) \<and> distinct (map date eurUsd) \<and>
   map date (calculateCrossRate eurUsd jpyUsd) = [''2024-01-02'', ''2024-01-03''] \<and>
   sorted (map date (calculateCrossRate eurUsd jpyUsd)) \<and>
   distinct (map date (calculateCrossRate eurUsd jpyUsd))"
  using cross_rate_keeps_from_order[of eurUsd jpyUsd]
  by (simp add: eurUsd_def jpyUsd_def)

subsection \<open>Facts about the single operations\<close>

lemma snd_fetchRatesFromBackend [simp]:
  "snd (fetchRatesFromBackend from to w) = emit (BackendGet from to) w"
  by (simp add: fetchRatesFromBackend_def Let_def split: http.splits option.splits)

lemma snd_saveRatesToBackend [simp]:
  "snd (saveRatesToBackend rs w) = emit (BackendPost (length rs)) w"
  by (simp add: saveRatesToBackend_def Let_def split: http.splits option.splits)

lemma fst_fetchRatesFromBackend_emit [simp]:
  "fst (fetchRatesFromBackend from to (emit e w)) = fst (fetchRatesFromBackend from to w)"
  by (simp add: fetchRatesFromBackend_def emit_def Let_def split: http.splits option.splits)

lemma loadData_emit [simp]: "loadData (emit e w) = loadData w"
  by (simp add: loadData_def emit_def getTodayDate_def split: option.splits)

lemma canMakeApiCall_emit [simp]: "canMakeApiCall (emit e w) = canMakeApiCall w"
  by (simp add: canMakeApiCall_def)

lemma getCurrencyData_eq:
  "getCurrencyData from to w =
     (map_option (\<lambda>d. \<lparr>pair = \<lparr>pair_from = from, pair_to = to\<rparr>, rates = rates d, lastUpdated = lastUpdated d\<rparr>)
        (currencyData w (getPairKey from to)),
      emit (DbGet (getPairKey from to)) w)"
  by (simp add: getCurrencyData_def Let_def split: option.splits)

lemma dailyRate_lambda:
  "(\<lambda>r. \<lparr>date = date r, open = open r, high = high r, low = low r, close = close r\<rparr>) = dailyRate"
  by (simp add: fun_eq_iff dailyRate_def)

lemmas limiter_eval = getCallsToday_def canMakeApiCall_def loadData_def getTodayDate_def SAFE_LIMIT_def
  recordApiCall_def saveData_def getTimeUntilNextCall_def

lemmas direct_eval = getCurrencyPairData.simps[of EUR USD] getCurrencyPairData.simps[of GBP USD]
  getCurrencyPairData.simps[of JPY USD]
  hasCachedData_def fetchRatesFromBackend_def saveRatesToBackend_def saveCurrencyData_def
  fetchFromApi_def parseRates_def truthy_def setTimeout_def

lemma apiRequests_emit [simp]:
  "apiRequests (emit e w) = apiRequests w + (if isApiRequest e then 1 else 0)"
  by (simp add: apiRequests_def emit_def)

lemma backendReads_emit [simp]:
  "backendReads (emit e w) = backendReads w + (if isBackendGet e then 1 else 0)"
  by (simp add: backendReads_def emit_def)

lemma currencyData_emit [simp]: "currencyData (emit e w) = currencyData w"
  by (simp add: emit_def)

lemma trace_recordApiCall [simp]: "trace (recordApiCall w) = trace w"
  by (simp add: recordApiCall_def saveData_def Let_def)

lemma currencyData_recordApiCall [simp]: "currencyData (recordApiCall w) = currencyData w"
  by (simp add: recordApiCall_def saveData_def Let_def)

lemma fetchFromApi_currencyData [simp]:
  "currencyData (snd (fetchFromApi from to w)) = currencyData w"
  by (simp add: fetchFromApi_def Let_def setTimeout_def emit_def split: http.splits option.splits)

lemma fetchFromApi_apiRequests:
  "apiRequests (snd (fetchFromApi from to w)) \<le> apiRequests w + 1"
  by (simp add: fetchFromApi_def Let_def setTimeout_def apiRequests_def emit_def
      split: http.splits option.splits)

lemma fetchFromApi_backendReads [simp]:
  "backendReads (snd (fetchFromApi from to w)) = backendReads w"
  by (simp add: fetchFromApi_def Let_def setTimeout_def backendReads_def emit_def
      split: http.splits option.splits)

lemma saveCurrencyData_fields [simp]:
  "currencyData (saveCurrencyData from to rs w) (getPairKey from to) =
     Some \<lparr>pair = getPairKey from to, rates = rs, lastUpdated = now w\<rparr>"
  "apiRequests (saveCurrencyData from to rs w) = apiRequests w"
  "backendReads (saveCurrencyData from to rs w) = backendReads w"
  by (simp_all add: saveCurrencyData_def Let_def apiRequests_def backendReads_def emit_def)

lemma cache_hit:
  assumes "X \<noteq> BASE_CURRENCY"
    and "currencyData w (getPairKey X BASE_CURRENCY) = Some d"
    and "rates d \<noteq> []"
  shows "getCurrencyPairData X BASE_CURRENCY False w =
           (Inr (rates d), emit (DbGet (getPairKey X BASE_CURRENCY)) w)"
  using assms
  apply (subst getCurrencyPairData.simps[of X BASE_CURRENCY])
  apply (simp add: getCurrencyData_eq)
  done

lemma first_call_facts:
  assumes "X \<noteq> BASE_CURRENCY"
    and "getCurrencyPairData X BASE_CURRENCY False w = (Inr rs, w1)"
    and "rs \<noteq> []"
  shows "(\<exists>d. currencyData w1 (getPairKey X BASE_CURRENCY) = Some d \<and> rates d = rs)
       \<and> apiRequests w1 \<le> apiRequests w + 1
       \<and> backendReads w1 \<le> backendReads w + 1"
proof -
  let ?key = "getPairKey X BASE_CURRENCY"
  let ?w1 = "emit (DbGet ?key) w"
  let ?w2 = "emit (BackendGet (code X) (code BASE_CURRENCY)) ?w1"
  let ?rows = "fst (fetchRatesFromBackend (code X) (code BASE_CURRENCY) w)"
  consider
      (hit) d where "currencyData w ?key = Some d" "rates d \<noteq> []"
    | (backend) "\<not> (\<exists>d. currencyData w ?key = Some d \<and> rates d \<noteq> [])" "?rows \<noteq> []"
    | (api) "\<not> (\<exists>d. currencyData w ?key = Some d \<and> rates d \<noteq> [])" "?rows = []"
    by blast
  then show ?thesis
  proof cases
    case hit
    then show ?thesis using assms cache_hit[OF assms(1) hit] by auto
  next
    case backend
    have "getCurrencyPairData X BASE_CURRENCY False w =
        (Inr (map dailyRate ?rows), saveCurrencyData X BASE_CURRENCY (map dailyRate ?rows) ?w2)"
      using assms(1) backend
      apply (subst getCurrencyPairData.simps[of X BASE_CURRENCY])
      apply (cases "currencyData w (getPairKey X BASE_CURRENCY)")
       apply (auto simp: getCurrencyData_eq dailyRate_lambda split_beta Let_def)
      done
    then show ?thesis using assms by auto
  next
    case api
    have run: "getCurrencyPairData X BASE_CURRENCY False w =
        (case fetchFromApi X BASE_CURRENCY ?w2 of
           (Inr rs, w3) \<Rightarrow>
             (Inr rs,
              if length rs > 0
              then emit (BackendPost (length rs)) (saveCurrencyData X BASE_CURRENCY rs w3)
              else saveCurrencyData X BASE_CURRENCY rs w3)
         | (Inl e, w3) \<Rightarrow> (Inl e, w3))"
      using assms(1) api
      apply (subst getCurrencyPairData.simps[of X BASE_CURRENCY])
      apply (cases "currencyData w (getPairKey X BASE_CURRENCY)")
       apply (auto simp: getCurrencyData_eq split_beta Let_def split: sum.splits prod.splits)
      done
    obtain r w3 where f: "fetchFromApi X BASE_CURRENCY ?w2 = (r, w3)" by (cases "fetchFromApi X BASE_CURRENCY ?w2")
    have "apiRequests w3 \<le> apiRequests w + 1" "backendReads w3 = backendReads w + 1"
      using fetchFromApi_apiRequests[of X BASE_CURRENCY ?w2]
        fetchFromApi_backendReads[of X BASE_CURRENCY ?w2] f by auto
    then show ?thesis using assms run f by (auto split: sum.splits)
  qed
qed

subsection \<open>The base-relative pair\<close>

text \<open>
  C8. When the cache has no data for \<open>(X, base)\<close>, the refresh is not forced and the
  shared store answers with a series that is not empty, the resolution returns that
  series (each row read as a rate), after one read of the cache, one request to the
  shared store and one write to the cache, and \<^verbatim>\<open>hasCachedData\<close> holds afterwards.
\<close>

theorem backend_series_is_adopted:
  assumes "X \<noteq> BASE_CURRENCY"
    and "\<not> fst (hasCachedData X BASE_CURRENCY w)"
    and "fst (fetchRatesFromBackend (code X) (code BASE_CURRENCY) w) = rows"
    and "rows \<noteq> []"
  shows "fst (getCurrencyPairData X BASE_CURRENCY False w) = Inr (map dailyRate rows)
       \<and> fst (hasCachedData X BASE_CURRENCY (snd (getCurrencyPairData X BASE_CURRENCY False w)))
       \<and> trace (snd (getCurrencyPairData X BASE_CURRENCY False w)) =
           trace w @ [DbGet (getPairKey X BASE_CURRENCY),
                      BackendGet (code X) (code BASE_CURRENCY),
                      DbPut (getPairKey X BASE_CURRENCY)]"
proof -
  have run: "getCurrencyPairData X BASE_CURRENCY False w =
      (Inr (map dailyRate rows),
       saveCurrencyData X BASE_CURRENCY (map dailyRate rows)
         (emit (BackendGet (code X) (code BASE_CURRENCY)) (emit (DbGet (getPairKey X BASE_CURRENCY)) w)))"
    using assms
    apply (subst getCurrencyPairData.simps[of X BASE_CURRENCY])
    apply (auto simp: getCurrencyData_eq hasCachedData_def dailyRate_lambda split_beta Let_def
        split: option.splits)
    done
  show ?thesis
    using assms(4)
    by (simp add: run hasCachedData_def getCurrencyData_eq saveCurrencyData_def emit_def Let_def)
qed

theorem backend_series_is_adopted_witness:
  "EUR \<noteq> BASE_CURRENCY
   \<and> \<not> fst (hasCachedData EUR BASE_CURRENCY backendWorld)
   \<and> fst (fetchRatesFromBackend (code EUR) (code BASE_CURRENCY) backendWorld) = eurRows
   \<and> eurRows \<noteq> []
   \<and> fst (getCurrencyPairData EUR BASE_CURRENCY False backendWorld) = Inr eurUsd
   \<and> fst (hasCachedData EUR BASE_CURRENCY (snd (getCurrencyPairData EUR BASE_CURRENCY False backendWorld)))"
  using backend_series_is_adopted[of EUR backendWorld eurRows]
  by (simp add: backendWorld_def eurRows_def world_eval direct_eval dailyRate_def)

text \<open>
  C1, as the code has it. With the budget of the day used up, a forced refresh of
  \<open>(X, base)\<close> reads the cache and nothing else: it raises \<open>BudgetExceeded\<close> when the
  cache holds no rate for the pair, and returns the cached series when it holds
  one, the error being caught by the fallback to the stale copy.
\<close>

theorem forced_refresh_over_budget:
  assumes "X \<noteq> BASE_CURRENCY" and "\<not> canMakeApiCall w"
  shows "getCurrencyPairData X BASE_CURRENCY True w =
           (if fst (hasCachedData X BASE_CURRENCY w)
            then Inr (rates (the (currencyData w (getPairKey X BASE_CURRENCY))))
            else Inl BudgetExceeded,
            emit (DbGet (getPairKey X BASE_CURRENCY)) w)"
  using assms
  apply (subst getCurrencyPairData.simps[of X BASE_CURRENCY])
  apply (simp add: getCurrencyData_eq hasCachedData_def fetchFromApi_def split: option.splits)
  done

theorem forced_refresh_over_budget_witness:
  "GBP \<noteq> BASE_CURRENCY \<and> \<not> canMakeApiCall exhaustedWorld
   \<and> fst (getCurrencyPairData GBP BASE_CURRENCY True exhaustedWorld) = Inl BudgetExceeded
   \<and> trace (snd (getCurrencyPairData GBP BASE_CURRENCY True exhaustedWorld)) = [DbGet ''GBP/USD'']"
  using forced_refresh_over_budget[of GBP exhaustedWorld]
  by (simp add: exhaustedWorld_def world_eval limiter_eval hasCachedData_def)

text \<open>
  An instance where the cache is served: with 24 calls recorded today and a cached
  series for EUR/USD, the forced refresh of EUR/USD returns the cached series and
  raises nothing.
\<close>

theorem forced_refresh_serves_cache_counterexample:
  "\<not> canMakeApiCall exhaustedWorld
   \<and> fst (getCurrencyPairData EUR BASE_CURRENCY True exhaustedWorld) = Inr eurUsd
   \<and> fst (getCurrencyPairData EUR BASE_CURRENCY True exhaustedWorld) \<noteq> Inl BudgetExceeded"
  by (simp add: exhaustedWorld_def world_eval limiter_eval direct_eval)

text \<open>
  C4, as the code has it. When a resolution of \<open>(X, base)\<close> without forced refresh
  returns a series that is not empty, the next one returns the same series after a
  single read of the cache, with no request to the shared store or to the provider;
  the first made one request at most to each of them.
\<close>

theorem second_call_is_cache_hit:
  assumes "X \<noteq> BASE_CURRENCY"
    and "getCurrencyPairData X BASE_CURRENCY False w = (Inr rs, w1)"
    and "rs \<noteq> []"
  shows "getCurrencyPairData X BASE_CURRENCY False w1 =
           (Inr rs, emit (DbGet (getPairKey X BASE_CURRENCY)) w1)
       \<and> apiRequests w1 \<le> apiRequests w + 1
       \<and> backendReads w1 \<le> backendReads w + 1"
  using first_call_facts[OF assms] cache_hit[OF assms(1), of w1] assms(3) by auto

theorem second_call_is_cache_hit_witness:
  "EUR \<noteq> BASE_CURRENCY
   \<and> fst (getCurrencyPairData EUR BASE_CURRENCY False backendWorld) = Inr eurUsd
   \<and> eurUsd \<noteq> []
   \<and> fst (getCurrencyPairData EUR BASE_CURRENCY False
            (snd (getCurrencyPairData EUR BASE_CURRENCY False backendWorld))) = Inr eurUsd
   \<and> trace (snd (getCurrencyPairData EUR BASE_CURRENCY False
            (snd (getCurrencyPairData EUR BASE_CURRENCY False backendWorld)))) =
       [DbGet ''EUR/USD'', BackendGet ''EUR'' ''USD'', DbPut ''EUR/USD'', DbGet ''EUR/USD'']"
proof -
  have f: "fst (getCurrencyPairData EUR BASE_CURRENCY False backendWorld) = Inr eurUsd"
    by (simp add: backendWorld_def eurRows_def world_eval direct_eval)
  have first: "getCurrencyPairData EUR BASE_CURRENCY False backendWorld =
      (Inr eurUsd, snd (getCurrencyPairData EUR BASE_CURRENCY False backendWorld))"
    using f by (metis prod.collapse)
  have t: "trace (snd (getCurrencyPairData EUR BASE_CURRENCY False backendWorld)) =
       [DbGet ''EUR/USD'', BackendGet ''EUR'' ''USD'', DbPut ''EUR/USD'']"
    by (simp add: backendWorld_def eurRows_def world_eval direct_eval)
  have ne: "eurUsd \<noteq> []" by (simp add: eurUsd_def)
  show ?thesis
    using second_call_is_cache_hit[OF _ first ne] f t ne
    by (simp add: BASE_CURRENCY_def getPairKey_def emit_def)
qed

text \<open>
  An instance where the second call is no cache hit: the cache has nothing, the shared
  store is unreachable and the provider answers without a time series. The first call
  returns the empty series and saves it; the second finds no rate in the cache, and
  each of the two calls asks the shared store and the provider.
\<close>

theorem empty_series_is_fetched_again_counterexample:
  "fst (getCurrencyPairData EUR BASE_CURRENCY False blankProviderWorld) = Inr []
   \<and> apiRequests (snd (getCurrencyPairData EUR BASE_CURRENCY False
                         (snd (getCurrencyPairData EUR BASE_CURRENCY False blankProviderWorld)))) = 2
   \<and> backendReads (snd (getCurrencyPairData EUR BASE_CURRENCY False
                         (snd (getCurrencyPairData EUR BASE_CURRENCY False blankProviderWorld)))) = 2"
  by (simp add: blankProviderWorld_def world_eval limiter_eval direct_eval apiRequests_def backendReads_def)

subsection \<open>The call budget\<close>

text \<open>
  A single call of \<^verbatim>\<open>fetchFromApi\<close>, run from its check to its end with no other call
  in between: with the count of the day equal to the safe limit it raises
  \<open>BudgetExceeded\<close> and leaves the state as it was (no request logged, the counter
  untouched), and a count that is within the limit before it is within the limit after
  it.
\<close>

lemma one_call_keeps_budget:
  "(getCallsToday w = SAFE_LIMIT \<longrightarrow> fetchFromApi from to w = (Inl BudgetExceeded, w))
   \<and> (getCallsToday w \<le> SAFE_LIMIT \<longrightarrow>
        getCallsToday (snd (fetchFromApi from to w)) \<le> SAFE_LIMIT)"
  apply (rule conjI)
   apply (simp add: getCallsToday_def fetchFromApi_def canMakeApiCall_def)
  apply (auto simp: getCallsToday_def fetchFromApi_def canMakeApiCall_def Let_def
      recordApiCall_def saveData_def loadData_def getTodayDate_def setTimeout_def emit_def
      split: http.splits option.splits if_splits)
  done

lemma one_call_keeps_budget_example:
  "getCallsToday exhaustedWorld = SAFE_LIMIT
   \<and> fetchFromApi EUR USD exhaustedWorld = (Inl BudgetExceeded, exhaustedWorld)
   \<and> getCallsToday almostWorld \<le> SAFE_LIMIT
   \<and> getCallsToday (snd (fetchFromApi EUR USD almostWorld)) = 24"
  using one_call_keeps_budget[of exhaustedWorld EUR USD] one_call_keeps_budget[of almostWorld EUR USD]
  by (simp add: exhaustedWorld_def almostWorld_def world_eval limiter_eval direct_eval)

subsection \<open>Two calls run together\<close>

text \<open>
  A leg run alone is the call of \<^verbatim>\<open>getCurrencyPairData\<close> for its pair; and the
  rejection \<open>promiseAll\<close> ends with is the error of a leg that has thrown, none when
  both legs have returned.
\<close>

lemma runLeg_Settled [simp]: "runLeg from to f (Settled r) w = (r, w)"
  by (subst runLeg.simps) simp

lemma runLeg_step:
  "settled l = None \<Longrightarrow>
   runLeg from to f l w = runLeg from to f (fst (legStep from to f l w)) (snd (legStep from to f l w))"
  by (subst runLeg.simps) (simp add: split_beta)

lemma runLeg_startFetch:
  "runLeg X BASE_CURRENCY f (fst (startFetch X BASE_CURRENCY f cached w2))
       (snd (startFetch X BASE_CURRENCY f cached w2)) =
     (if f \<or> cached = None \<or> length (rates (the cached)) = 0 then
        (case fetchFromApi X BASE_CURRENCY w2 of
           (Inr rs, w3) \<Rightarrow>
             (let w4 = saveCurrencyData X BASE_CURRENCY rs w3;
                  w5 = (if length rs > 0
                        then snd (saveRatesToBackend
                               (map (\<lambda>r. \<lparr>date = date r, open = open r, high = high r,
                                            low = low r, close = close r,
                                            rate_from = X, rate_to = BASE_CURRENCY\<rparr>) rs) w4)
                        else w4)
              in (Inr rs, w5))
         | (Inl e, w3) \<Rightarrow>
             if cached \<noteq> None \<and> length (rates (the cached)) > 0
             then (Inr (rates (the cached)), w3)
             else (Inl e, w3))
      else (Inr [], w2))"
  by (auto simp: startFetch_def fetchFromApi_def Let_def runLeg_step caught_def setTimeout_def
      emit_def max_def
      split: http.splits option.splits)

lemma leg_alone:
  assumes "X \<noteq> BASE_CURRENCY"
  shows "runLeg X BASE_CURRENCY f Called w = getCurrencyPairData X BASE_CURRENCY f w"
  using assms
  apply (subst getCurrencyPairData.simps[of X BASE_CURRENCY])
  apply (cases f)
   apply (auto simp: runLeg_step runLeg_startFetch split_beta Let_def split: sum.splits)
  done

lemma promiseAll_done [simp]:
  "promiseAll a b t f i rej (Settled r1) (Settled r2) w = ((r1, r2, rej), w)"
  by (subst promiseAll.simps) simp

lemma promiseAll_first:
  "settled l1 = None \<Longrightarrow> settled l2 \<noteq> None \<or> schedule w i \<Longrightarrow>
   promiseAll a b t f i rej l1 l2 w =
     promiseAll a b t f (Suc i) (firstRejection rej (fst (legStep a t f l1 w)))
       (fst (legStep a t f l1 w)) l2 (snd (legStep a t f l1 w))"
  by (subst promiseAll.simps) (auto simp: split_beta split: option.splits)

lemma promiseAll_second:
  "settled l2 = None \<Longrightarrow> settled l1 \<noteq> None \<or> \<not> schedule w i \<Longrightarrow>
   promiseAll a b t f i rej l1 l2 w =
     promiseAll a b t f (Suc i) (firstRejection rej (fst (legStep b t f l2 w)))
       l1 (fst (legStep b t f l2 w)) (snd (legStep b t f l2 w))"
  by (subst promiseAll.simps) (auto simp: split_beta split: option.splits)

lemma legStep_decreases:
  "settled l = None \<Longrightarrow> remaining (fst (legStep from to f l w)) < remaining l"
  by (cases l)
    (auto simp: startFetch_def Let_def split: prod.splits if_splits http.splits option.splits)

lemma promiseAll_rejection:
  assumes "promiseAll a b t f i rej l1 l2 w = ((r1, r2, rej'), w')"
    and "case rej of
           None \<Rightarrow> (\<forall>e. settled l1 \<noteq> Some (Inl e)) \<and> (\<forall>e. settled l2 \<noteq> Some (Inl e))
         | Some e \<Rightarrow> settled l1 = Some (Inl e) \<or> settled l2 = Some (Inl e)"
  shows "case rej' of
           None \<Rightarrow> (\<exists>fs ts. r1 = Inr fs \<and> r2 = Inr ts)
         | Some e \<Rightarrow> r1 = Inl e \<or> r2 = Inl e"
  using assms
proof (induction "remaining l1 + remaining l2" arbitrary: i rej l1 l2 w rule: less_induct)
  case less
  show ?case
  proof (cases "settled l1")
    case None
    show ?thesis
    proof (cases "settled l2 \<noteq> None \<or> schedule w i")
      case True
      let ?l = "fst (legStep a t f l1 w)"
      have run: "promiseAll a b t f (Suc i) (firstRejection rej ?l) ?l l2 (snd (legStep a t f l1 w))
          = ((r1, r2, rej'), w')"
        using less.prems(1) promiseAll_first[OF None True] by simp
      have dec: "remaining ?l + remaining l2 < remaining l1 + remaining l2"
        using legStep_decreases[OF None] by simp
      have inv: "case firstRejection rej ?l of
           None \<Rightarrow> (\<forall>e. settled ?l \<noteq> Some (Inl e)) \<and> (\<forall>e. settled l2 \<noteq> Some (Inl e))
         | Some e \<Rightarrow> settled ?l = Some (Inl e) \<or> settled l2 = Some (Inl e)"
        using less.prems(2) None
        by (auto simp: firstRejection_def split: option.splits sum.splits)
      from less.hyps[OF dec run inv] show ?thesis .
    next
      case False
      then have n2: "settled l2 = None" and s: "settled l1 \<noteq> None \<or> \<not> schedule w i" by auto
      let ?l = "fst (legStep b t f l2 w)"
      have run: "promiseAll a b t f (Suc i) (firstRejection rej ?l) l1 ?l (snd (legStep b t f l2 w))
          = ((r1, r2, rej'), w')"
        using less.prems(1) promiseAll_second[OF n2 s] by simp
      have dec: "remaining l1 + remaining ?l < remaining l1 + remaining l2"
        using legStep_decreases[OF n2] by simp
      have inv: "case firstRejection rej ?l of
           None \<Rightarrow> (\<forall>e. settled l1 \<noteq> Some (Inl e)) \<and> (\<forall>e. settled ?l \<noteq> Some (Inl e))
         | Some e \<Rightarrow> settled l1 = Some (Inl e) \<or> settled ?l = Some (Inl e)"
        using less.prems(2) n2
        by (auto simp: firstRejection_def split: option.splits sum.splits)
      from less.hyps[OF dec run inv] show ?thesis .
    qed
  next
    case (Some x1)
    then obtain x1' where l1: "l1 = Settled x1'" by (cases l1) auto
    show ?thesis
    proof (cases "settled l2")
      case None
      let ?l = "fst (legStep b t f l2 w)"
      have s: "settled l1 \<noteq> None \<or> \<not> schedule w i" using Some by simp
      have run: "promiseAll a b t f (Suc i) (firstRejection rej ?l) l1 ?l (snd (legStep b t f l2 w))
          = ((r1, r2, rej'), w')"
        using less.prems(1) promiseAll_second[OF None s] by simp
      have dec: "remaining l1 + remaining ?l < remaining l1 + remaining l2"
        using legStep_decreases[OF None] by simp
      have inv: "case firstRejection rej ?l of
           None \<Rightarrow> (\<forall>e. settled l1 \<noteq> Some (Inl e)) \<and> (\<forall>e. settled ?l \<noteq> Some (Inl e))
         | Some e \<Rightarrow> settled l1 = Some (Inl e) \<or> settled ?l = Some (Inl e)"
        using less.prems(2) None
        by (auto simp: firstRejection_def split: option.splits sum.splits)
      from less.hyps[OF dec run inv] show ?thesis .
    next
      case (Some x2)
      then obtain x2' where l2: "l2 = Settled x2'" by (cases l2) auto
      show ?thesis
        using less.prems l1 l2
        by (cases x1'; cases x2'; cases rej) auto
    qed
  qed
qed

text \<open>
  With a schedule that always resumes the first leg, the two legs are the two calls of
  \<^verbatim>\<open>getCurrencyPairData\<close> one after the other.
\<close>

lemma schedule_legStep [simp]: "schedule (snd (legStep from to f l w)) = schedule w"
  by (cases l)
    (auto simp: startFetch_def getCurrencyData_def fetchRatesFromBackend_def saveRatesToBackend_def
      saveCurrencyData_def recordApiCall_def saveData_def emit_def Let_def
      split: prod.splits if_splits http.splits option.splits)

lemma settled_Some [simp]: "(settled l = Some r) = (l = Settled r)"
  by (cases l) auto

lemma firstRejection_Some [simp]: "firstRejection (Some e) l = Some e"
  by (simp add: firstRejection_def)

lemma promiseAll_second_alone:
  "promiseAll a b t f i rej (Settled r1) l2 w =
     (case runLeg b t f l2 w of
        (r2, w2) \<Rightarrow>
          ((r1, r2, case rej of Some e \<Rightarrow> Some e
                    | None \<Rightarrow> (case r2 of Inl e \<Rightarrow> (if settled l2 = None then Some e else None)
                                | Inr rs \<Rightarrow> None)), w2))"
proof (induction "remaining l2" arbitrary: i rej l2 w rule: less_induct)
  case less
  show ?case
  proof (cases "settled l2")
    case None
    let ?l = "fst (legStep b t f l2 w)"
    let ?w = "snd (legStep b t f l2 w)"
    have step: "promiseAll a b t f i rej (Settled r1) l2 w =
        promiseAll a b t f (Suc i) (firstRejection rej ?l) (Settled r1) ?l ?w"
      using promiseAll_second[OF None, of "Settled r1" w i a b t f rej] by simp
    have run: "runLeg b t f l2 w = runLeg b t f ?l ?w" using runLeg_step[OF None] .
    show ?thesis
      unfolding step run less.hyps[OF legStep_decreases[OF None]]
      using None
      by (cases "settled ?l"; cases rej)
        (auto simp: firstRejection_def split_beta runLeg_step split: sum.splits option.splits)
  next
    case (Some r2)
    then show ?thesis by (cases rej; cases r2) auto
  qed
qed


lemma promiseAll_first_then_second:
  assumes "\<forall>i. schedule w i" and "settled l2 = None"
  shows "promiseAll a b t f i rej l1 l2 w =
     (case runLeg a t f l1 w of
        (r1, w1) \<Rightarrow>
          (case runLeg b t f l2 w1 of
             (r2, w2) \<Rightarrow>
               ((r1, r2,
                 case rej of Some e \<Rightarrow> Some e
                 | None \<Rightarrow>
                     (case r1 of
                        Inl e \<Rightarrow> (if settled l1 = None then Some e
                                   else (case r2 of Inl e' \<Rightarrow> Some e' | Inr rs \<Rightarrow> None))
                      | Inr rs \<Rightarrow> (case r2 of Inl e \<Rightarrow> Some e | Inr rs' \<Rightarrow> None))), w2)))"
  using assms
proof (induction "remaining l1" arbitrary: i rej l1 w rule: less_induct)
  case less
  show ?case
  proof (cases "settled l1")
    case None
    let ?l = "fst (legStep a t f l1 w)"
    let ?w = "snd (legStep a t f l1 w)"
    have step: "promiseAll a b t f i rej l1 l2 w =
        promiseAll a b t f (Suc i) (firstRejection rej ?l) ?l l2 ?w"
      using promiseAll_first[OF None, of l2 w i a b t f rej] less.prems by simp
    have run: "runLeg a t f l1 w = runLeg a t f ?l ?w" using runLeg_step[OF None] .
    have sched: "\<forall>i. schedule ?w i" using less.prems by simp
    show ?thesis
      unfolding step run less.hyps[OF legStep_decreases[OF None] sched less.prems(2)]
      using None less.prems(2)
      by (cases "settled ?l"; cases rej)
        (auto simp: firstRejection_def split_beta split: sum.splits option.splits)
  next
    case (Some r1)
    then show ?thesis
      using less.prems(2)
      by (cases rej; cases r1) (auto simp: promiseAll_second_alone split_beta split: sum.splits)
  qed
qed

lemma promiseAll_in_sequence:
  assumes "\<forall>i. schedule w i" and "X \<noteq> BASE_CURRENCY" and "Y \<noteq> BASE_CURRENCY"
  shows "promiseAll X Y BASE_CURRENCY f 0 None Called Called w =
     (case getCurrencyPairData X BASE_CURRENCY f w of
        (r1, w1) \<Rightarrow>
          (case getCurrencyPairData Y BASE_CURRENCY f w1 of
             (r2, w2) \<Rightarrow>
               ((r1, r2,
                 case r1 of Inl e \<Rightarrow> Some e
                 | Inr rs \<Rightarrow> (case r2 of Inl e \<Rightarrow> Some e | Inr rs' \<Rightarrow> None)), w2)))"
  using promiseAll_first_then_second[OF assms(1), of Called X Y BASE_CURRENCY f 0 None Called]
  by (simp add: leg_alone[OF assms(2)] leg_alone[OF assms(3)] split_beta split: sum.splits)

lemmas leg_eval = promiseAll_first promiseAll_second firstRejection_def startFetch_def caught_def

subsection \<open>The pair of two currencies other than the base\<close>

text \<open>
  C2, as the code has it. For \<open>X\<close> and \<open>Y\<close> other than the base and different, let the
  two resolutions of \<open>(X, base)\<close> and \<open>(Y, base)\<close> that the call starts together end
  with \<open>r1\<close> and \<open>r2\<close>. When both return, \<open>fromLeg\<close> and \<open>toLeg\<close>, the resolution of
  \<open>(X, Y)\<close> returns a series whose dates are those found in both legs and no other,
  which is empty when a leg is empty, and which is the inner join of the two legs on
  equal date strings, each joined rate being open/open, high/low, low/high, close/close
  (the dates of the second leg being all different, as the data model has them). When a
  leg raises, the resolution raises the error of a leg, also when the other leg has
  returned the empty series.
\<close>

theorem cross_pair_is_inner_join:
  assumes "X \<noteq> BASE_CURRENCY" and "Y \<noteq> BASE_CURRENCY" and "X \<noteq> Y"
    and "promiseAll X Y BASE_CURRENCY f 0 None Called Called w = ((r1, r2, rejection), w2)"
  shows "(\<forall>fromLeg toLeg. r1 = Inr fromLeg \<and> r2 = Inr toLeg \<longrightarrow>
            (\<exists>rs. getCurrencyPairData X Y f w = (Inr rs, w2)
                \<and> set (map date rs) = date ` set fromLeg \<inter> date ` set toLeg
                \<and> (fromLeg = [] \<or> toLeg = [] \<longrightarrow> rs = [])
                \<and> (distinct (map date toLeg) \<longrightarrow> rs = innerJoin fromLeg toLeg)))
       \<and> ((\<exists>e. r1 = Inl e) \<or> (\<exists>e. r2 = Inl e) \<longrightarrow>
            (\<exists>e. getCurrencyPairData X Y f w = (Inl e, w2) \<and> (r1 = Inl e \<or> r2 = Inl e)))"
proof -
  have rej: "case rejection of
           None \<Rightarrow> (\<exists>fs ts. r1 = Inr fs \<and> r2 = Inr ts)
         | Some e \<Rightarrow> r1 = Inl e \<or> r2 = Inl e"
    using promiseAll_rejection[OF assms(4)] by simp
  have run: "getCurrencyPairData X Y f w =
      (case rejection of
         Some e \<Rightarrow> (Inl e, w2)
       | None \<Rightarrow>
           (case r1 of
              Inl e \<Rightarrow> (Inl e, w2)
            | Inr fromToUsd \<Rightarrow>
                (case r2 of
                   Inl e \<Rightarrow> (Inl e, w2)
                 | Inr toToUsd \<Rightarrow>
                     if length fromToUsd = 0 \<or> length toToUsd = 0 then (Inr [], w2)
                     else (Inr (calculateCrossRate fromToUsd toToUsd), w2))))"
    using assms by (subst getCurrencyPairData.simps[of X Y]) simp
  have good: "\<exists>rs. getCurrencyPairData X Y f w = (Inr rs, w2)
                \<and> set (map date rs) = date ` set fromLeg \<inter> date ` set toLeg
                \<and> (fromLeg = [] \<or> toLeg = [] \<longrightarrow> rs = [])
                \<and> (distinct (map date toLeg) \<longrightarrow> rs = innerJoin fromLeg toLeg)"
    if legs: "r1 = Inr fromLeg" "r2 = Inr toLeg" for fromLeg toLeg
  proof -
    let ?rs = "if length fromLeg = 0 \<or> length toLeg = 0 then []
               else calculateCrossRate fromLeg toLeg"
    have none: "rejection = None" using rej legs by (cases rejection) auto
    have "getCurrencyPairData X Y f w = (Inr ?rs, w2)" using run none legs by simp
    moreover have "set (map date ?rs) = date ` set fromLeg \<inter> date ` set toLeg"
      using cross_date_set[of fromLeg toLeg] by auto
    moreover have "innerJoin fromLeg toLeg = []" if empty: "fromLeg = [] \<or> toLeg = []"
      using empty by (auto simp: innerJoin_def)
    then have "distinct (map date toLeg) \<Longrightarrow> ?rs = innerJoin fromLeg toLeg"
      using cross_is_join[of toLeg fromLeg] by auto
    ultimately show ?thesis by (intro exI[of _ ?rs]) simp
  qed
  have bad: "\<exists>e. getCurrencyPairData X Y f w = (Inl e, w2) \<and> (r1 = Inl e \<or> r2 = Inl e)"
    if raised: "(\<exists>e. r1 = Inl e) \<or> (\<exists>e. r2 = Inl e)"
  proof -
    obtain e where "rejection = Some e" using rej raised by (cases rejection) auto
    then show ?thesis using run rej by auto
  qed
  show ?thesis using good bad by blast
qed

theorem cross_pair_is_inner_join_witness:
  "EUR \<noteq> BASE_CURRENCY \<and> JPY \<noteq> BASE_CURRENCY \<and> EUR \<noteq> JPY
   \<and> fst (promiseAll EUR JPY BASE_CURRENCY False 0 None Called Called cachedWorld) =
       (Inr eurUsd, Inr jpyUsd, None)
   \<and> distinct (map date jpyUsd)
   \<and> fst (getCurrencyPairData EUR JPY False cachedWorld) =
       Inr [\<lparr>date = ''2024-01-02'', open = 2, high = 8, low = 1 / 2, close = 2\<rparr>,
            \<lparr>date = ''2024-01-03'', open = 1, high = 2, low = 1 / 2, close = 2\<rparr>]
   \<and> fst (promiseAll EUR JPY BASE_CURRENCY False 0 None Called Called halfWorld) =
       (Inr [], Inl ProviderNote, Some ProviderNote)
   \<and> fst (getCurrencyPairData EUR JPY False halfWorld) = Inl ProviderNote"
proof -
  let ?p = "promiseAll EUR JPY BASE_CURRENCY False 0 None Called Called cachedWorld"
  let ?q = "promiseAll EUR JPY BASE_CURRENCY False 0 None Called Called halfWorld"
  have p: "fst ?p = (Inr eurUsd, Inr jpyUsd, None)"
    by (simp add: leg_eval world_eval)
  have q: "fst ?q = (Inr [], Inl ProviderNote, Some ProviderNote)"
    by (simp add: leg_eval halfWorld_def world_eval limiter_eval direct_eval)
  have p': "?p = ((Inr eurUsd, Inr jpyUsd, None), snd ?p)" using p by (metis prod.collapse)
  have q': "?q = ((Inr [], Inl ProviderNote, Some ProviderNote), snd ?q)" using q by (metis prod.collapse)
  have d: "distinct (map date jpyUsd)" by (simp add: jpyUsd_def)
  have j: "innerJoin eurUsd jpyUsd =
      [\<lparr>date = ''2024-01-02'', open = 2, high = 8, low = 1 / 2, close = 2\<rparr>,
       \<lparr>date = ''2024-01-03'', open = 1, high = 2, low = 1 / 2, close = 2\<rparr>]"
    by (simp add: innerJoin_def crossDivide_def eurUsd_def jpyUsd_def)
  show ?thesis
    using cross_pair_is_inner_join[OF _ _ _ p'] cross_pair_is_inner_join[OF _ _ _ q'] p q d j by (auto simp: BASE_CURRENCY_def)
qed

text \<open>
  An instance where a leg is empty and the result is not: nothing is cached, the
  shared store is unreachable, the provider answers EUR/USD without a time series and
  JPY/USD with a note. The resolution of EUR/USD returns the empty series, that of
  JPY/USD raises, and the resolution of EUR/JPY raises.
\<close>

theorem empty_leg_beside_raising_leg_counterexample:
  "fst (getCurrencyPairData EUR BASE_CURRENCY False halfWorld) = Inr []
   \<and> fst (promiseAll EUR JPY BASE_CURRENCY False 0 None Called Called halfWorld) =
       (Inr [], Inl ProviderNote, Some ProviderNote)
   \<and> fst (getCurrencyPairData EUR JPY False halfWorld) = Inl ProviderNote
   \<and> fst (getCurrencyPairData EUR JPY False halfWorld) \<noteq> Inr []"
  by (simp add: getCurrencyPairData.simps[of EUR JPY] leg_eval halfWorld_def world_eval limiter_eval
      direct_eval)

text \<open>
  C5. The count of the day does pass the safe limit when two calls run together: with
  23 calls recorded today and a provider that answers, a forced resolution of EUR/JPY
  whose two legs are resumed in turn sends two requests, each leg having passed
  \<^verbatim>\<open>canMakeApiCall\<close> before the other reached \<^verbatim>\<open>recordApiCall\<close>, and ends with a count
  of 25, the safe limit being 24; it returns the join of the two fetched series.
\<close>

theorem budget_overrun_by_two_legs:
  "getCallsToday raceWorld = 23 \<and> SAFE_LIMIT = 24
   \<and> apiRequests raceWorld = 0
   \<and> apiRequests (snd (getCurrencyPairData EUR JPY True raceWorld)) = 2
   \<and> getCallsToday (snd (getCurrencyPairData EUR JPY True raceWorld)) = 25
   \<and> fst (getCurrencyPairData EUR JPY True raceWorld) =
       Inr [\<lparr>date = ''2024-01-01'', open = 1, high = 4, low = 1 / 4, close = 1\<rparr>,
            \<lparr>date = ''2024-01-02'', open = 1, high = 4, low = 1 / 4, close = 1\<rparr>]"
  by (simp add: getCurrencyPairData.simps[of EUR JPY] leg_eval raceWorld_def world_eval limiter_eval
      direct_eval apiRequests_def calculateCrossRate_def)

text \<open>
  The same without forced refresh, nothing being cached and the shared store
  unreachable: resumed in turn, the two legs end with a count of 25 and the join; when
  the second leg is resumed only after the first has recorded its call (its answer
  from the shared store coming late), it is refused and the resolution raises
  \<open>BudgetExceeded\<close> with a count of 24.
\<close>

lemma unforced_legs_overrun_example:
  "getCallsToday almostWorld = 23
   \<and> getCallsToday (snd (getCurrencyPairData EUR JPY False almostWorld)) = 25
   \<and> fst (getCurrencyPairData EUR JPY False almostWorld) =
       Inr [\<lparr>date = ''2024-01-01'', open = 1, high = 4, low = 1 / 4, close = 1\<rparr>,
            \<lparr>date = ''2024-01-02'', open = 1, high = 4, low = 1 / 4, close = 1\<rparr>]
   \<and> fst (getCurrencyPairData EUR JPY False (almostWorld\<lparr>schedule := (\<lambda>i. True)\<rparr>)) =
       Inl BudgetExceeded
   \<and> getCallsToday (snd (getCurrencyPairData EUR JPY False (almostWorld\<lparr>schedule := (\<lambda>i. True)\<rparr>))) = 24"
  by (simp add: getCurrencyPairData.simps[of EUR JPY] leg_eval almostWorld_def world_eval limiter_eval
      direct_eval calculateCrossRate_def)

subsection \<open>The two orchestrators\<close>

lemma hasCachedData_world [simp]:
  "snd (hasCachedData from to w) = emit (DbGet (getPairKey from to)) w"
  by (simp add: hasCachedData_def getCurrencyData_eq split: option.splits)

lemma rateLimit_emit [simp]: "rateLimit (emit e w) = rateLimit w"
  by (simp add: emit_def)

lemma today_emit [simp]: "today (emit e w) = today w"
  by (simp add: emit_def)

lemma trace_emit [simp]: "trace (emit e w) = trace w @ [e]"
  by (simp add: emit_def)

lemma saveCurrencyData_limiter [simp]:
  "rateLimit (saveCurrencyData from to rs w) = rateLimit w"
  "today (saveCurrencyData from to rs w) = today w"
  "trace (saveCurrencyData from to rs w) = trace w @ [DbPut (getPairKey from to)]"
  by (simp_all add: saveCurrencyData_def Let_def)

lemma loadData_same:
  "rateLimit w' = rateLimit w \<Longrightarrow> today w' = today w \<Longrightarrow> loadData w' = loadData w"
  by (simp add: loadData_def getTodayDate_def split: option.splits)

lemma syncLoop_spec:
  "syncLoop cs (s, f, n) w = ((s', f', n'), w') \<Longrightarrow>
   rateLimit w' = rateLimit w \<and> today w' = today w \<and> f \<le> f' \<and>
   s' + f' = s + f + length cs \<and>
   (\<exists>evs. trace w' = trace w @ evs \<and> list_all cacheOrBackend evs \<and>
          length (filter isDbGet evs) = length cs \<and>
          length (filter isBackendGet evs) = (f' - f) + length (filter isDbPut evs))"
proof (induction cs arbitrary: s f n w)
  case Nil
  then show ?case by simp
next
  case (Cons c cs)
  let ?w1 = "emit (DbGet (getPairKey c BASE_CURRENCY)) w"
  let ?w2 = "emit (BackendGet (code c) (code BASE_CURRENCY)) ?w1"
  let ?rows = "fst (fetchRatesFromBackend (code c) (code BASE_CURRENCY) ?w1)"
  consider (skip) "fst (hasCachedData c BASE_CURRENCY w)"
    | (adopt) "\<not> fst (hasCachedData c BASE_CURRENCY w)" "?rows \<noteq> []"
    | (fail) "\<not> fst (hasCachedData c BASE_CURRENCY w)" "?rows = []"
    by blast
  then show ?case
  proof cases
    case skip
    then have "syncLoop cs (s + 1, f, n) ?w1 = ((s', f', n'), w')"
      using Cons.prems by (simp add: split_beta)
    from Cons.IH[OF this] show ?thesis by auto
  next
    case adopt
    then have "syncLoop cs (s + 1, f, n + length ?rows)
                 (saveCurrencyData c BASE_CURRENCY (map dailyRate ?rows) ?w2) = ((s', f', n'), w')"
      using Cons.prems by (simp add: split_beta Let_def dailyRate_lambda)
    from Cons.IH[OF this] show ?thesis by auto
  next
    case fail
    then have "syncLoop cs (s, f + 1, n) ?w2 = ((s', f', n'), w')"
      using Cons.prems by (simp add: split_beta)
    from Cons.IH[OF this] show ?thesis by auto
  qed
qed

lemma length_orderedCurrencies:
  "length (orderedCurrencies p) = length FETCH_CURRENCIES"
proof (cases p)
  case None
  then show ?thesis by (simp add: orderedCurrencies_def)
next
  case (Some c)
  then show ?thesis
    by (cases c) (simp_all add: orderedCurrencies_def FETCH_CURRENCIES_def BASE_CURRENCY_def)
qed

text \<open>
  C7. A run of \<^verbatim>\<open>backgroundSyncFromBackend\<close> leaves the stored call budget and the
  count of the day as they were. What it logs before the completion callback are reads
  and writes of the cache and reads of the shared store only, never a request to the
  provider: one read of the cache for each currency, and a read of the shared store for
  each currency that either failed or was written to the cache. The callback gets the
  counts, whose successes and failures add up to the number of currencies.
\<close>

theorem background_sync_spares_budget:
  "rateLimit (backgroundSyncFromBackend priorityCurrency w) = rateLimit w
   \<and> getCallsToday (backgroundSyncFromBackend priorityCurrency w) = getCallsToday w
   \<and> (\<exists>evs s f n.
         trace (backgroundSyncFromBackend priorityCurrency w) = trace w @ evs @ [Complete s f n]
         \<and> list_all cacheOrBackend evs
         \<and> s + f = length FETCH_CURRENCIES
         \<and> length (filter isDbGet evs) = length FETCH_CURRENCIES
         \<and> length (filter isBackendGet evs) = f + length (filter isDbPut evs))"
proof -
  obtain s f n w1 where run: "syncLoop (orderedCurrencies priorityCurrency) (0, 0, 0) w = ((s, f, n), w1)"
    by (metis prod.exhaust)
  from syncLoop_spec[OF run] obtain evs where
    facts: "rateLimit w1 = rateLimit w" "today w1 = today w"
      "s + f = length (orderedCurrencies priorityCurrency)"
      "trace w1 = trace w @ evs" "list_all cacheOrBackend evs"
      "length (filter isDbGet evs) = length (orderedCurrencies priorityCurrency)"
      "length (filter isBackendGet evs) = f + length (filter isDbPut evs)"
    by auto
  have w': "backgroundSyncFromBackend priorityCurrency w = emit (Complete s f n) w1"
    by (simp add: backgroundSyncFromBackend_def run)
  have budget: "rateLimit (emit (Complete s f n) w1) = rateLimit w"
    using facts(1) by simp
  have count: "getCallsToday (emit (Complete s f n) w1) = getCallsToday w"
    using loadData_same[of "emit (Complete s f n) w1" w] facts(1,2) by (simp add: getCallsToday_def)
  have log: "trace (emit (Complete s f n) w1) = trace w @ evs @ [Complete s f n]"
    using facts(4) by simp
  have "trace (emit (Complete s f n) w1) = trace w @ evs @ [Complete s f n]
         \<and> list_all cacheOrBackend evs
         \<and> s + f = length FETCH_CURRENCIES
         \<and> length (filter isDbGet evs) = length FETCH_CURRENCIES
         \<and> length (filter isBackendGet evs) = f + length (filter isDbPut evs)"
    using log facts(3,5,6,7) by (simp add: length_orderedCurrencies)
  then show ?thesis
    unfolding w' using budget count by blast
qed

lemmas sync_eval = backgroundSyncFromBackend_def orderedCurrencies_def FETCH_CURRENCIES_def syncWorld_def
  gbpRows_def

theorem background_sync_spares_budget_witness:
  "rateLimit (backgroundSyncFromBackend (Some JPY) syncWorld) = rateLimit syncWorld
   \<and> trace (backgroundSyncFromBackend (Some JPY) syncWorld) =
       [DbGet ''JPY/USD'', DbGet ''EUR/USD'',
        DbGet ''GBP/USD'', BackendGet ''GBP'' ''USD'', DbPut ''GBP/USD'',
        DbGet ''CNY/USD'', BackendGet ''CNY'' ''USD'',
        DbGet ''CHF/USD'', BackendGet ''CHF'' ''USD'',
        DbGet ''AUD/USD'', BackendGet ''AUD'' ''USD'',
        DbGet ''CAD/USD'', BackendGet ''CAD'' ''USD'',
        DbGet ''NZD/USD'', BackendGet ''NZD'' ''USD'',
        Complete 3 5 2]"
  using background_sync_spares_budget[of "Some JPY" syncWorld]
  by (simp add: sync_eval world_eval direct_eval)

lemma metadata_emit [simp]: "metadata (emit e w) = metadata w"
  by (simp add: emit_def)

lemma fetchFromApi_trace:
  "\<exists>evs. trace (snd (fetchFromApi from to w)) = trace w @ evs
         \<and> filter isProgress evs = []
         \<and> filter isDbPut evs = []
         \<and> (\<forall>k. MetaPut k \<notin> set evs)
         \<and> subseq (filter isApiRequest evs) [ApiRequest from to]
         \<and> (canMakeApiCall w \<longrightarrow> filter isApiRequest evs = [ApiRequest from to])"
  by (auto simp: fetchFromApi_def Let_def setTimeout_def emit_def split: http.splits option.splits)

lemma fetchFromApi_keeps [simp]:
  "metadata (snd (fetchFromApi from to w)) = metadata w"
  "today (snd (fetchFromApi from to w)) = today w"
  by (simp_all add: fetchFromApi_def Let_def setTimeout_def emit_def recordApiCall_def saveData_def
      split: http.splits option.splits)

lemma fetchFromApi_calls:
  "getCallsToday (snd (fetchFromApi from to w)) \<le> getCallsToday w + 1"
  by (auto simp: getCallsToday_def fetchFromApi_def canMakeApiCall_def Let_def
      recordApiCall_def saveData_def loadData_def getTodayDate_def setTimeout_def emit_def
      split: http.splits option.splits if_splits)

lemma saveCurrencyData_metadata [simp]:
  "metadata (saveCurrencyData from to rs w) = metadata w"
  by (simp add: saveCurrencyData_def Let_def)

lemma getCallsToday_same:
  "rateLimit w' = rateLimit w \<Longrightarrow> today w' = today w \<Longrightarrow> getCallsToday w' = getCallsToday w"
  using loadData_same[of w' w] by (simp add: getCallsToday_def)

lemma length_refreshEach: "length (fst (refreshEach ics n w)) = length ics"
  by (induction ics arbitrary: w) (auto simp: split_beta)

lemma prefetchLoop_refreshEach:
  "prefetchLoop cs n (cur, s, f) w =
     (case refreshEach (enumerate cur cs) n w of
        (oks, w1) \<Rightarrow>
          ((cur + length cs, s + length (filter id oks), f + length (filter Not oks)), w1))"
proof (induction cs arbitrary: cur s f w)
  case Nil
  then show ?case by simp
next
  case (Cons c cs)
  show ?case
    by (cases "fetchFromApi c BASE_CURRENCY w")
      (auto simp: refreshOne_def Cons.IH Let_def split_beta split: sum.splits)
qed

lemma prefetchLoop_spec:
  "prefetchLoop cs n (cur, s, f) w = ((cur', s', f'), w') \<Longrightarrow>
   cur' = cur + length cs \<and> s' + f' = s + f + length cs \<and> s \<le> s' \<and>
   metadata w' = metadata w \<and> today w' = today w \<and>
   (\<exists>evs. trace w' = trace w @ evs
        \<and> filter isProgress evs = map (\<lambda>(i, c). Progress (Suc i) n (code c)) (enumerate cur cs)
        \<and> (\<forall>k. MetaPut k \<notin> set evs)
        \<and> length (filter isDbPut evs) = s' - s
        \<and> subseq (filter isApiRequest evs) (map (\<lambda>c. ApiRequest c BASE_CURRENCY) cs)
        \<and> (getCallsToday w + int (length cs) \<le> SAFE_LIMIT \<longrightarrow>
             filter isApiRequest evs = map (\<lambda>c. ApiRequest c BASE_CURRENCY) cs))"
proof (induction cs arbitrary: cur s f w)
  case Nil
  then show ?case by simp
next
  case (Cons c cs)
  obtain r w1 where fetch: "fetchFromApi c BASE_CURRENCY w = (r, w1)"
    by (cases "fetchFromApi c BASE_CURRENCY w")
  obtain es where es: "trace w1 = trace w @ es" "filter isProgress es = []"
      "filter isDbPut es = []"
      "\<forall>k. MetaPut k \<notin> set es" "subseq (filter isApiRequest es) [ApiRequest c BASE_CURRENCY]"
      "canMakeApiCall w \<longrightarrow> filter isApiRequest es = [ApiRequest c BASE_CURRENCY]"
    using fetchFromApi_trace[of c BASE_CURRENCY w] fetch by auto
  have keeps: "metadata w1 = metadata w" "today w1 = today w"
    using fetchFromApi_keeps[of c BASE_CURRENCY w] fetch by auto
  have calls: "getCallsToday w1 \<le> getCallsToday w + 1"
    using fetchFromApi_calls[of c BASE_CURRENCY w] fetch by simp
  define item where "item = (case r of Inr rs \<Rightarrow> [DbPut (getPairKey c BASE_CURRENCY)] | Inl e \<Rightarrow> [])"
  define w3 where "w3 = emit (Progress (cur + 1) n (code c))
      (case r of Inr rs \<Rightarrow> saveCurrencyData c BASE_CURRENCY rs w1 | Inl e \<Rightarrow> w1)"
  define s1 where "s1 = (case r of Inr rs \<Rightarrow> s + 1 | Inl e \<Rightarrow> s)"
  define f1 where "f1 = (case r of Inr rs \<Rightarrow> f | Inl e \<Rightarrow> f + 1)"
  have step: "prefetchLoop cs n (cur + 1, s1, f1) w3 = ((cur', s', f'), w')"
    using Cons.prems fetch by (cases r) (simp_all add: Let_def w3_def s1_def f1_def)
  have w3: "trace w3 = trace w @ es @ item @ [Progress (cur + 1) n (code c)]"
    "metadata w3 = metadata w" "today w3 = today w" "rateLimit w3 = rateLimit w1"
    using es(1) keeps
    by (cases r; simp add: w3_def item_def)+
  have same: "getCallsToday w3 = getCallsToday w1"
    using getCallsToday_same[of w3 w1] w3(3,4) keeps(2) by simp
  from Cons.IH[OF step] obtain evs where
    rest: "cur' = cur + 1 + length cs" "s' + f' = s1 + f1 + length cs" "s1 \<le> s'"
      "metadata w' = metadata w3" "today w' = today w3"
      "trace w' = trace w3 @ evs"
      "filter isProgress evs = map (\<lambda>(i, c). Progress (Suc i) n (code c)) (enumerate (cur + 1) cs)"
      "\<forall>k. MetaPut k \<notin> set evs"
      "length (filter isDbPut evs) = s' - s1"
      "subseq (filter isApiRequest evs) (map (\<lambda>c. ApiRequest c BASE_CURRENCY) cs)"
      "getCallsToday w3 + int (length cs) \<le> SAFE_LIMIT \<longrightarrow>
         filter isApiRequest evs = map (\<lambda>c. ApiRequest c BASE_CURRENCY) cs"
    by auto
  let ?all = "es @ item @ [Progress (cur + 1) n (code c)] @ evs"
  have sums: "s1 + f1 = s + f + 1" "s \<le> s1" "length (filter isDbPut item) = s1 - s"
    "filter isProgress item = []" "filter isApiRequest item = []" "\<forall>k. MetaPut k \<notin> set item"
    by (cases r; simp add: s1_def f1_def item_def)+
  have "trace w' = trace w @ ?all" using rest(6) w3(1) by simp
  moreover have "filter isProgress ?all =
      map (\<lambda>(i, c). Progress (Suc i) n (code c)) (enumerate cur (c # cs))"
    using rest(7) es(2) sums(4) by simp
  moreover have "\<forall>k. MetaPut k \<notin> set ?all" using rest(8) es(4) sums(6) by simp
  moreover have "length (filter isDbPut ?all) = s' - s"
    using rest(3,9) es(3) sums(2,3) by simp
  moreover have "subseq (filter isApiRequest ?all) (map (\<lambda>c. ApiRequest c BASE_CURRENCY) (c # cs))"
    using list_emb_append_mono[OF es(5) rest(10)] sums(5) by simp
  moreover have "filter isApiRequest ?all = map (\<lambda>c. ApiRequest c BASE_CURRENCY) (c # cs)"
    if budget: "getCallsToday w + int (length (c # cs)) \<le> SAFE_LIMIT"
  proof -
    have "canMakeApiCall w" using budget by (simp add: canMakeApiCall_def getCallsToday_def)
    moreover have "getCallsToday w3 + int (length cs) \<le> SAFE_LIMIT"
      using budget calls same by simp
    ultimately show ?thesis using es(6) rest(11) sums(5) by simp
  qed
  ultimately show ?case
    using rest(1-5) sums(1,2) w3(2,3) by (intro conjI exI[of _ ?all] impI) simp_all
qed

text \<open>
  C6. A run of \<^verbatim>\<open>prefetchBasePairs\<close> with forced refresh attempts each of
  \<^verbatim>\<open>FETCH_CURRENCIES\<close> once, in the order of the list, and goes on after a failure: its
  outcome is that of the items run one after the other, \<open>success\<close> being the number of
  items whose call of the adapter returned and \<open>failed\<close> the number of those whose call
  raised, so that they add up to the number of currencies; each success is written to
  the cache; the progress reports are \<open>(1, total, c\<^sub>1)\<close>, ..., \<open>(total, total, c\<^sub>n)\<close>;
  the requests sent to the provider are at most one for each currency, in that order,
  and exactly one for each when the budget of the day allows them all; and the batch
  marker is written, with the date of the day, exactly when no item failed.
\<close>

theorem batch_refresh_attempts_all:
  "case prefetchBasePairs True w of
     (res, w') \<Rightarrow>
       (case refreshEach (enumerate 0 FETCH_CURRENCIES) (length FETCH_CURRENCIES) w of
          (oks, w1) \<Rightarrow>
            length oks = length FETCH_CURRENCIES
            \<and> success res = length (filter id oks)
            \<and> failed res = length (filter Not oks)
            \<and> w' = (if failed res = 0 then markBatchUpdateComplete w1 else w1))
       \<and> success res + failed res = length FETCH_CURRENCIES
       \<and> (\<exists>evs. trace w' = trace w @ evs
             \<and> filter isProgress evs =
                 map (\<lambda>(i, c). Progress (Suc i) (length FETCH_CURRENCIES) (code c))
                     (enumerate 0 FETCH_CURRENCIES)
             \<and> subseq (filter isApiRequest evs) (map (\<lambda>c. ApiRequest c BASE_CURRENCY) FETCH_CURRENCIES)
             \<and> (getCallsToday w + int (length FETCH_CURRENCIES) \<le> SAFE_LIMIT \<longrightarrow>
                  filter isApiRequest evs = map (\<lambda>c. ApiRequest c BASE_CURRENCY) FETCH_CURRENCIES)
             \<and> length (filter isDbPut evs) = success res
             \<and> (MetaPut ''lastBatchUpdateDate'' \<in> set evs \<longleftrightarrow> failed res = 0))
       \<and> metadata w' =
           (if failed res = 0 then (metadata w)(''lastBatchUpdateDate'' \<mapsto> today w) else metadata w)"
proof -
  obtain oks w0 where
    each: "refreshEach (enumerate 0 FETCH_CURRENCIES) (length FETCH_CURRENCIES) w = (oks, w0)"
    by (metis prod.exhaust)
  have len: "length oks = length FETCH_CURRENCIES"
    using length_refreshEach[of "enumerate 0 FETCH_CURRENCIES" "length FETCH_CURRENCIES" w] each
    by simp
  define s where "s = length (filter id oks)"
  define f where "f = length (filter Not oks)"
  have run: "prefetchLoop FETCH_CURRENCIES (length FETCH_CURRENCIES) (0, 0, 0) w =
      ((length FETCH_CURRENCIES, s, f), w0)"
    by (simp add: prefetchLoop_refreshEach each s_def f_def)
  from prefetchLoop_spec[OF run] obtain evs where
    facts: "s + f = length FETCH_CURRENCIES" "metadata w0 = metadata w" "today w0 = today w"
      "trace w0 = trace w @ evs"
      "filter isProgress evs =
         map (\<lambda>(i, c). Progress (Suc i) (length FETCH_CURRENCIES) (code c)) (enumerate 0 FETCH_CURRENCIES)"
      "\<forall>k. MetaPut k \<notin> set evs"
      "length (filter isDbPut evs) = s"
      "subseq (filter isApiRequest evs) (map (\<lambda>c. ApiRequest c BASE_CURRENCY) FETCH_CURRENCIES)"
      "getCallsToday w + int (length FETCH_CURRENCIES) \<le> SAFE_LIMIT \<longrightarrow>
         filter isApiRequest evs = map (\<lambda>c. ApiRequest c BASE_CURRENCY) FETCH_CURRENCIES"
    by auto
  show ?thesis
  proof (cases "f = 0")
    case True
    then have "prefetchBasePairs True w = (\<lparr>success = s, failed = 0\<rparr>, markBatchUpdateComplete w0)"
      by (simp add: prefetchBasePairs_def run)
    then show ?thesis
      using facts True len each
      by (auto simp: s_def f_def markBatchUpdateComplete_def saveMetadata_def getTodayDate_def
          intro!: exI[of _ "evs @ [MetaPut ''lastBatchUpdateDate'']"])
  next
    case False
    then have "prefetchBasePairs True w = (\<lparr>success = s, failed = f\<rparr>, w0)"
      by (simp add: prefetchBasePairs_def run)
    then show ?thesis
      using facts False len each by (auto simp: s_def f_def intro!: exI[of _ evs])
  qed
qed

lemmas batch_eval = prefetchBasePairs_def FETCH_CURRENCIES_def markBatchUpdateComplete_def saveMetadata_def

theorem batch_refresh_attempts_all_witness:
  "fst (prefetchBasePairs True mixedWorld) = \<lparr>success = 4, failed = 4\<rparr>
   \<and> fst (refreshEach (enumerate 0 FETCH_CURRENCIES) (length FETCH_CURRENCIES) mixedWorld) =
       [True, False, False, False, True, False, True, True]
   \<and> filter isApiRequest (trace (snd (prefetchBasePairs True mixedWorld))) =
       map (\<lambda>c. ApiRequest c BASE_CURRENCY) FETCH_CURRENCIES
   \<and> map_option rates (currencyData (snd (prefetchBasePairs True mixedWorld)) ''EUR/USD'') =
       Some [\<lparr>date = ''2024-01-01'', open = 2, high = 4, low = 1, close = 2\<rparr>,
             \<lparr>date = ''2024-01-02'', open = 4, high = 8, low = 2, close = 4\<rparr>]
   \<and> currencyData (snd (prefetchBasePairs True mixedWorld)) ''GBP/USD'' = None
   \<and> metadata (snd (prefetchBasePairs True mixedWorld)) ''lastBatchUpdateDate'' = None
   \<and> fst (prefetchBasePairs True blankProviderWorld) = \<lparr>success = 8, failed = 0\<rparr>
   \<and> metadata (snd (prefetchBasePairs True blankProviderWorld)) ''lastBatchUpdateDate'' =
       Some ''2024-04-10''"
proof -
  have mixed:
    "fst (prefetchBasePairs True mixedWorld) = \<lparr>success = 4, failed = 4\<rparr>
     \<and> fst (refreshEach (enumerate 0 FETCH_CURRENCIES) (length FETCH_CURRENCIES) mixedWorld) =
         [True, False, False, False, True, False, True, True]
     \<and> filter isApiRequest (trace (snd (prefetchBasePairs True mixedWorld))) =
         map (\<lambda>c. ApiRequest c BASE_CURRENCY) FETCH_CURRENCIES
     \<and> map_option rates (currencyData (snd (prefetchBasePairs True mixedWorld)) ''EUR/USD'') =
         Some [\<lparr>date = ''2024-01-01'', open = 2, high = 4, low = 1, close = 2\<rparr>,
               \<lparr>date = ''2024-01-02'', open = 4, high = 8, low = 2, close = 4\<rparr>]
     \<and> currencyData (snd (prefetchBasePairs True mixedWorld)) ''GBP/USD'' = None
     \<and> metadata (snd (prefetchBasePairs True mixedWorld)) ''lastBatchUpdateDate'' = None"
    using batch_refresh_attempts_all[of mixedWorld]
    by (simp add: batch_eval refreshOne_def mixedWorld_def world_eval limiter_eval direct_eval)
  have blank:
    "fst (prefetchBasePairs True blankProviderWorld) = \<lparr>success = 8, failed = 0\<rparr>
     \<and> metadata (snd (prefetchBasePairs True blankProviderWorld)) ''lastBatchUpdateDate'' =
         Some ''2024-04-10''"
    by (simp add: batch_eval blankProviderWorld_def world_eval limiter_eval direct_eval)
  from mixed blank show ?thesis by blast
qed

end
